theory Spec2Isabelle
  imports Main
begin

section \<open>Data model of insightly\_stages.py\<close>

text \<open>
  The script reads JSON documents and mutates them in place. The values a custom field
  holds are modelled by \<open>pyval\<close>: JSON null, an integer, or a text. The text that
  \<^verbatim>\<open>strftime('%Y-%m-%d 00:00:00')\<close> prints for a day is represented by that day
  (\<open>PDay d\<close>, with \<open>d\<close> the ordinal of the day); \<open>PStr\<close> holds every other text, none of
  which is taken to parse as a date. Floats, booleans and nested containers are outside
  the model.
\<close>

datatype pyval = PNone | PInt int | PStr string | PDay int

text \<open>Python truthiness, as tested by \<^verbatim>\<open>if x:\<close> and \<^verbatim>\<open>not x\<close>.\<close>

fun truthy :: "pyval \<Rightarrow> bool" where
  "truthy PNone = False"
| "truthy (PInt i) = (i \<noteq> 0)"
| "truthy (PStr s) = (s \<noteq> [])"
| "truthy (PDay d) = True"

text \<open>
  \<^verbatim>\<open>stage_order == v\<close> and \<^verbatim>\<open>stage_order > v\<close> for an integer \<open>stage_order\<close>. The script
  is Python 2 (it imports \<^verbatim>\<open>print_function\<close> from \<^verbatim>\<open>__future__\<close> and hands the bytes of
  a response to \<^verbatim>\<open>json.loads\<close>): an integer is never equal to a text, is greater than
  \<^verbatim>\<open>None\<close>, and is smaller than every text.
\<close>

fun py_eq :: "int \<Rightarrow> pyval \<Rightarrow> bool" where
  "py_eq i (PInt k) = (i = k)"
| "py_eq i PNone = False"
| "py_eq i (PStr s) = False"
| "py_eq i (PDay d) = False"

fun py_gt :: "int \<Rightarrow> pyval \<Rightarrow> bool" where
  "py_gt i (PInt k) = (i > k)"
| "py_gt i PNone = True"
| "py_gt i (PStr s) = False"
| "py_gt i (PDay d) = False"

datatype exn = KeyError | TypeError | ValueError | HttpError nat

text \<open>
  An entry of an opportunity's \<^verbatim>\<open>CUSTOMFIELDS\<close> list: a dict with the key
  \<^verbatim>\<open>CUSTOM_FIELD_ID\<close> and, optionally, the key \<^verbatim>\<open>FIELD_VALUE\<close> (\<open>None\<close> when the key is
  missing).
\<close>

record custom_field =
  CUSTOM_FIELD_ID :: string
  FIELD_VALUE :: "pyval option"

text \<open>\<^verbatim>\<open>field.get('FIELD_VALUE')\<close> and \<^verbatim>\<open>field['FIELD_VALUE']\<close>.\<close>

definition dict_get :: "custom_field \<Rightarrow> pyval" where
  "dict_get field = (case FIELD_VALUE field of None \<Rightarrow> PNone | Some v \<Rightarrow> v)"

definition subscript :: "custom_field \<Rightarrow> exn + pyval" where
  "subscript field = (case FIELD_VALUE field of None \<Rightarrow> Inl KeyError | Some v \<Rightarrow> Inr v)"

text \<open>
  The other documents, with the keys the script reads. The fields of all records share
  one name space: the key \<^verbatim>\<open>STAGE_ID\<close> of an opportunity is \<open>OPP_STAGE_ID\<close> here (null
  is \<open>None\<close>), and the key \<^verbatim>\<open>CUSTOM_FIELD_ID\<close> of a custom-field definition is
  \<open>DEF_FIELD_ID\<close>.
\<close>

record opportunity =
  OPPORTUNITY_ID :: int
  OPP_STAGE_ID :: "int option"
  CUSTOMFIELDS :: "custom_field list"

record pipeline_stage =
  STAGE_ID :: int
  STAGE_ORDER :: int

record field_definition =
  DEF_FIELD_ID :: string
  FIELD_FOR :: string
  FIELD_NAME :: string

section \<open>Dates\<close>

text \<open>
  A \<^verbatim>\<open>datetime\<close> is a number of microseconds on the naive local time line; day \<open>d\<close>
  starts at \<open>midnight d\<close> and \<open>date_of t\<close> is the day \<open>t\<close> lies in. \<open>strftime\<close> is
  \<^verbatim>\<open>strftime('%Y-%m-%d 00:00:00')\<close>, which keeps the date and drops the time of day;
  \<open>strptime\<close> reads such a text back and raises on anything else; \<open>timedelta_days a b\<close>
  is \<^verbatim>\<open>(a - b).days\<close>, the floor of the difference in days, as \<^verbatim>\<open>timedelta\<close>
  normalises it.
\<close>

definition usec_per_day :: int where
  "usec_per_day = 86400000000"

definition midnight :: "int \<Rightarrow> int" where
  "midnight d = d * usec_per_day"

definition date_of :: "int \<Rightarrow> int" where
  "date_of t = t div usec_per_day"

definition strftime :: "int \<Rightarrow> pyval" where
  "strftime t = PDay (date_of t)"

fun strptime :: "pyval \<Rightarrow> exn + int" where
  "strptime (PDay d) = Inr (midnight d)"
| "strptime (PStr s) = Inl ValueError"
| "strptime PNone = Inl TypeError"
| "strptime (PInt i) = Inl TypeError"

definition timedelta_days :: "int \<Rightarrow> int \<Rightarrow> int" where
  "timedelta_days a b = (a - b) div usec_per_day"

section \<open>get\_custom\_field\<close>

text \<open>
  \<^verbatim>\<open>get_custom_field(opp, field_id, default)\<close> returns a reference to the first entry
  of \<^verbatim>\<open>opp['CUSTOMFIELDS']\<close> with the given id, and appends a new entry when there is
  none. The reference is the position of the entry in the list: later writes through it
  change the list. A default of \<^verbatim>\<open>None\<close> leaves the new entry without \<^verbatim>\<open>FIELD_VALUE\<close>.
\<close>

fun first_index :: "string \<Rightarrow> custom_field list \<Rightarrow> nat option" where
  "first_index field_id [] = None"
| "first_index field_id (x # xs) =
     (if CUSTOM_FIELD_ID x = field_id then Some 0
      else map_option Suc (first_index field_id xs))"

definition get_custom_field ::
  "custom_field list \<Rightarrow> string \<Rightarrow> pyval option \<Rightarrow> custom_field list \<times> nat" where
  "get_custom_field cfs field_id dflt =
     (case first_index field_id cfs of
        Some i \<Rightarrow> (cfs, i)
      | None \<Rightarrow> (cfs @ [\<lparr>CUSTOM_FIELD_ID = field_id, FIELD_VALUE = dflt\<rparr>], length cfs))"

text \<open>\<^verbatim>\<open>field['FIELD_VALUE'] = v\<close> through the reference \<open>i\<close>.\<close>

definition set_value :: "nat \<Rightarrow> pyval \<Rightarrow> custom_field list \<Rightarrow> custom_field list" where
  "set_value i v cfs = cfs[i := (cfs ! i)\<lparr>FIELD_VALUE := Some v\<rparr>]"

text \<open>What a reader of the list sees for a field id: the value of the first entry.\<close>

definition field_value :: "string \<Rightarrow> custom_field list \<Rightarrow> pyval option" where
  "field_value field_id cfs =
     (case first_index field_id cfs of None \<Rightarrow> None | Some i \<Rightarrow> FIELD_VALUE (cfs ! i))"

section \<open>The stage tracker\<close>

record field_ids =
  last_known_stage_id :: string
  last_time_stage_changed_id :: string
  days_in_current_stage_id :: string

text \<open>
  Lines 180 to 195 of \<^verbatim>\<open>process_opportunities_stages\<close>, on the \<^verbatim>\<open>CUSTOMFIELDS\<close> list of
  one opportunity. \<open>now1\<close> is what \<^verbatim>\<open>datetime.now()\<close> returns at line 180, \<open>now2\<close> what it
  returns at line 188, 191 or 195 (one of them runs at most).
\<close>

definition track ::
  "field_ids \<Rightarrow> int \<Rightarrow> int \<Rightarrow> int \<Rightarrow> custom_field list \<Rightarrow> exn + custom_field list" where
  "track ids stage_order now1 now2 cfs0 =
    (let now = strftime now1;
         (cfs1, last_known_stage) = get_custom_field cfs0 (last_known_stage_id ids) None;
         (cfs2, last_time_stage_changed) =
            get_custom_field cfs1 (last_time_stage_changed_id ids) (Some now);
         (cfs3, days_in_current_stage) =
            get_custom_field cfs2 (days_in_current_stage_id ids) (Some (PInt 0))
     in if truthy (dict_get (cfs3 ! last_known_stage)) then
          (case subscript (cfs3 ! last_known_stage) of
             Inl e \<Rightarrow> Inl e
           | Inr recorded \<Rightarrow>
               if py_eq stage_order recorded then
                 (case subscript (cfs3 ! last_time_stage_changed) of
                    Inl e \<Rightarrow> Inl e
                  | Inr text \<Rightarrow>
                      (case strptime text of
                         Inl e \<Rightarrow> Inl e
                       | Inr last_time \<Rightarrow>
                           Inr (set_value days_in_current_stage
                                  (PInt (timedelta_days now2 last_time)) cfs3)))
               else if py_gt stage_order recorded then
                 Inr (set_value last_known_stage (PInt stage_order)
                       (set_value last_time_stage_changed (strftime now2)
                         (set_value days_in_current_stage (PInt 0) cfs3)))
               else Inr cfs3)
        else
          Inr (set_value last_time_stage_changed (strftime now2)
                (set_value last_known_stage (PInt stage_order) cfs3)))"

text \<open>
  The three entries the tracker works on exist after the three calls of
  \<^verbatim>\<open>get_custom_field\<close>; \<open>synthesized\<close> is the list at that point. \<open>read_default\<close> is
  the \<^verbatim>\<open>FIELD_VALUE\<close> of the entry \<^verbatim>\<open>get_custom_field\<close> returns: the stored one, or the
  default of a new entry. \<open>write_value\<close> writes through the first entry of an id.
\<close>

definition synthesized :: "field_ids \<Rightarrow> int \<Rightarrow> custom_field list \<Rightarrow> custom_field list" where
  "synthesized ids now1 cfs0 =
     fst (get_custom_field
       (fst (get_custom_field
         (fst (get_custom_field cfs0 (last_known_stage_id ids) None))
         (last_time_stage_changed_id ids) (Some (strftime now1))))
       (days_in_current_stage_id ids) (Some (PInt 0)))"

definition read_default :: "string \<Rightarrow> pyval option \<Rightarrow> custom_field list \<Rightarrow> pyval option" where
  "read_default field_id dflt cfs =
     (case first_index field_id cfs of None \<Rightarrow> dflt | Some i \<Rightarrow> FIELD_VALUE (cfs ! i))"

definition write_value :: "string \<Rightarrow> pyval \<Rightarrow> custom_field list \<Rightarrow> custom_field list" where
  "write_value field_id v cfs =
     (case first_index field_id cfs of None \<Rightarrow> cfs | Some i \<Rightarrow> set_value i v cfs)"

definition count_entries :: "string \<Rightarrow> custom_field list \<Rightarrow> nat" where
  "count_entries field_id cfs = length (filter (\<lambda>x. CUSTOM_FIELD_ID x = field_id) cfs)"

text \<open>The test of line 185 on what \<^verbatim>\<open>.get('FIELD_VALUE')\<close> finds for a field.\<close>

definition is_recorded :: "pyval option \<Rightarrow> bool" where
  "is_recorded r = (case r of None \<Rightarrow> False | Some v \<Rightarrow> truthy v)"

definition distinct_ids :: "field_ids \<Rightarrow> bool" where
  "distinct_ids ids =
     (last_known_stage_id ids \<noteq> last_time_stage_changed_id ids \<and>
      last_known_stage_id ids \<noteq> days_in_current_stage_id ids \<and>
      last_time_stage_changed_id ids \<noteq> days_in_current_stage_id ids)"

text \<open>Lines 194 and 195, the branch taken when no recorded value is found.\<close>

definition first_time :: "field_ids \<Rightarrow> int \<Rightarrow> int \<Rightarrow> custom_field list \<Rightarrow> custom_field list" where
  "first_time ids stage_order now2 cfs3 =
     write_value (last_time_stage_changed_id ids) (strftime now2)
       (write_value (last_known_stage_id ids) (PInt stage_order) cfs3)"

section \<open>The loop over the opportunities\<close>

text \<open>
  \<^verbatim>\<open>stages = {x['STAGE_ID']: x for x in ...}\<close>: a later stage with the same id replaces
  an earlier one.
\<close>

definition stage_catalog :: "pipeline_stage list \<Rightarrow> (int \<rightharpoonup> pipeline_stage)" where
  "stage_catalog xs = fold (\<lambda>x m. m(STAGE_ID x \<mapsto> x)) xs Map.empty"

text \<open>
  The body of the loop, lines 173 to 195, for one opportunity: \<open>Continue\<close> when the stage
  id is falsy (null or 0), \<open>Return\<close> when the catalog has no such stage (after the error
  log), \<open>Raising\<close> when the tracker raises, and otherwise \<open>Persist\<close> with the opportunity
  that line 198 sends.
\<close>

datatype step = Continue | Return | Raising exn | Persist opportunity

definition process_opp ::
  "field_ids \<Rightarrow> (int \<rightharpoonup> pipeline_stage) \<Rightarrow> int \<times> int \<Rightarrow> opportunity \<Rightarrow> step" where
  "process_opp ids stages nows opp =
     (case OPP_STAGE_ID opp of
        None \<Rightarrow> Continue
      | Some sid \<Rightarrow>
          if sid = 0 then Continue
          else (case stages sid of
                  None \<Rightarrow> Return
                | Some stage \<Rightarrow>
                    (case track ids (STAGE_ORDER stage) (fst nows) (snd nows) (CUSTOMFIELDS opp) of
                       Inl e \<Rightarrow> Raising e
                     | Inr cfs \<Rightarrow> Persist (opp\<lparr>CUSTOMFIELDS := cfs\<rparr>))))"

text \<open>
  What the run does to the outside: the requests it sends and the error records it logs,
  in order. A run ends by returning (\<open>Returned\<close>: the early \<^verbatim>\<open>return\<close> statements and the
  end of the function alike), by an exception (\<open>Raise\<close>), or not at all (\<open>Hangs\<close>).
\<close>

datatype event =
    GET_CustomFields
  | GET_Opportunities nat
  | GET_PipelineStages
  | PUT opportunity
  | LOG_error
  | LOG_critical

datatype outcome = Returned | Raise exn | Hangs

text \<open>
  \<open>put opp\<close> is the status code the server answers to the PUT of \<open>opp\<close>; \<open>clock i\<close> holds
  the two readings of \<^verbatim>\<open>datetime.now()\<close> taken for the opportunity at position \<open>i\<close>.
\<close>

fun process_loop ::
  "field_ids \<Rightarrow> (int \<rightharpoonup> pipeline_stage) \<Rightarrow> (opportunity \<Rightarrow> nat) \<Rightarrow> (nat \<Rightarrow> int \<times> int) \<Rightarrow>
   nat \<Rightarrow> opportunity list \<Rightarrow> outcome \<times> event list" where
  "process_loop ids stages put clock i [] = (Returned, [])"
| "process_loop ids stages put clock i (opp # opps) =
     (case process_opp ids stages (clock i) opp of
        Continue \<Rightarrow> process_loop ids stages put clock (Suc i) opps
      | Return \<Rightarrow> (Returned, [LOG_error])
      | Raising e \<Rightarrow> (Raise e, [])
      | Persist opp' \<Rightarrow>
          if put opp' \<noteq> 200 then (Raise (HttpError (put opp')), [PUT opp', LOG_critical])
          else (case process_loop ids stages put clock (Suc i) opps of
                  (r, evs) \<Rightarrow> (r, PUT opp' # evs)))"

section \<open>The field resolver\<close>

text \<open>
  \<^verbatim>\<open>get_fields_by_name\<close>, with \<^verbatim>\<open>str.lower\<close> on ASCII letters (characters are bytes
  here; other letters are left as they are).
\<close>

definition lower_char :: "char \<Rightarrow> char" where
  "lower_char c =
     (let n = (of_char c :: nat) in if 65 \<le> n \<and> n \<le> 90 then char_of (n + 32) else c)"

definition lower :: "string \<Rightarrow> string" where
  "lower s = map lower_char s"

text \<open>\<^verbatim>\<open>s in t\<close> for two texts: \<open>s\<close> occurs in \<open>t\<close> as a contiguous piece.\<close>

fun py_in :: "string \<Rightarrow> string \<Rightarrow> bool" where
  "py_in s [] = (s = [])"
| "py_in s (c # t) = (take (length s) (c # t) = s \<or> py_in s t)"

definition get_fields_by_name :: "field_definition list \<Rightarrow> string \<Rightarrow> field_definition list" where
  "get_fields_by_name field_defs name =
     filter (\<lambda>x. FIELD_FOR x = ''OPPORTUNITY'' \<and> py_in (lower name) (lower (FIELD_NAME x))) field_defs"

section \<open>Requests\<close>

text \<open>
  A response: its status code and its decoded JSON content. The response to a request
  with \<^verbatim>\<open>count_total=true\<close> carries the header \<^verbatim>\<open>X-Total-Count\<close> as well.
\<close>

record 'a response =
  status_code :: nat
  content :: 'a

record 'a counted_response = "'a response" +
  x_total_count :: nat

definition insightly_get :: "'a response \<Rightarrow> exn + 'a" where
  "insightly_get response =
     (if status_code response \<noteq> 200 then Inl (HttpError (status_code response))
      else Inr (content response))"

text \<open>
  \<^verbatim>\<open>insightly_get_all\<close>: \<open>server skip\<close> is the response to the request with
  \<^verbatim>\<open>&skip=<skip>&count_total=true\<close>. The \<^verbatim>\<open>while True\<close> loop runs on fuel, one unit for
  each request; the result is \<open>None\<close> when the fuel runs out before the loop ends. The
  second component lists the offsets requested, in order.
\<close>

fun insightly_get_all_loop ::
  "nat \<Rightarrow> (nat \<Rightarrow> 'a list counted_response) \<Rightarrow> 'a list \<Rightarrow> nat \<Rightarrow>
   (exn + 'a list) option \<times> nat list" where
  "insightly_get_all_loop 0 server results skip = (None, [])"
| "insightly_get_all_loop (Suc fuel) server results skip =
     (let response = server skip in
      if status_code response \<noteq> 200 then (Some (Inl (HttpError (status_code response))), [skip])
      else
        let results' = results @ content response in
        if length results' \<ge> x_total_count response then (Some (Inr results'), [skip])
        else
          (case insightly_get_all_loop fuel server results' (skip + length results') of
             (r, skips) \<Rightarrow> (r, skip # skips)))"

definition insightly_get_all ::
  "nat \<Rightarrow> (nat \<Rightarrow> 'a list counted_response) \<Rightarrow> (exn + 'a list) option \<times> nat list" where
  "insightly_get_all fuel server = insightly_get_all_loop fuel server [] 0"

text \<open>
  A server that holds the items \<open>xs\<close> and answers a request at offset \<open>skip\<close> with at most
  \<open>page\<close> of them, from that offset on, and with the total count.
\<close>

definition paged_server :: "'a list \<Rightarrow> nat \<Rightarrow> nat \<Rightarrow> 'a list counted_response" where
  "paged_server xs page skip =
     \<lparr>status_code = 200, content = take page (drop skip xs), x_total_count = length xs\<rparr>"

section \<open>The run\<close>

record server =
  custom_fields_response :: "field_definition list response"
  opportunities_response :: "nat \<Rightarrow> opportunity list counted_response"
  pipeline_stages_response :: "pipeline_stage list response"
  put_status :: "opportunity \<Rightarrow> nat"

definition process_opportunities_stages ::
  "nat \<Rightarrow> server \<Rightarrow> (nat \<Rightarrow> int \<times> int) \<Rightarrow> outcome \<times> event list" where
  "process_opportunities_stages fuel srv clock =
     (case insightly_get (custom_fields_response srv) of
        Inl e \<Rightarrow> (Raise e, [GET_CustomFields, LOG_critical])
      | Inr field_defs \<Rightarrow>
          (case (get_fields_by_name field_defs ''last known stage'',
                 get_fields_by_name field_defs ''last time stage changed'',
                 get_fields_by_name field_defs ''days in current stage'') of
             ([a], [b], [c]) \<Rightarrow>
               (let ids = \<lparr>last_known_stage_id = DEF_FIELD_ID a,
                           last_time_stage_changed_id = DEF_FIELD_ID b,
                           days_in_current_stage_id = DEF_FIELD_ID c\<rparr>
                in case insightly_get_all fuel (opportunities_response srv) of
                     (None, skips) \<Rightarrow> (Hangs, GET_CustomFields # map GET_Opportunities skips)
                   | (Some (Inl e), skips) \<Rightarrow>
                       (Raise e, GET_CustomFields # map GET_Opportunities skips @ [LOG_critical])
                   | (Some (Inr opportunities), skips) \<Rightarrow>
                       (case insightly_get (pipeline_stages_response srv) of
                          Inl e \<Rightarrow>
                            (Raise e, GET_CustomFields # map GET_Opportunities skips
                                       @ [GET_PipelineStages, LOG_critical])
                        | Inr stages \<Rightarrow>
                            (case process_loop ids (stage_catalog stages) (put_status srv) clock 0
                                    opportunities of
                               (r, evs) \<Rightarrow>
                                 (r, GET_CustomFields # map GET_Opportunities skips
                                      @ [GET_PipelineStages] @ evs))))
           | _ \<Rightarrow> (Returned, [GET_CustomFields, LOG_error])))"

text \<open>
  \<^verbatim>\<open>main\<close> calls \<^verbatim>\<open>process_opportunities_stages\<close> and catches nothing: the interpreter
  ends with status 0 after a return and with status 1 after an uncaught exception.
\<close>

fun exit_status :: "outcome \<Rightarrow> nat option" where
  "exit_status Returned = Some 0"
| "exit_status (Raise e) = Some 1"
| "exit_status Hangs = None"

section \<open>Sample data\<close>

text \<open>
  The field ids, the stage catalog and the shape of the \<^verbatim>\<open>CUSTOMFIELDS\<close> lists of the
  repository's test cases (\<^verbatim>\<open>test.py\<close>), and a time of day on a given day.
\<close>

definition test_ids :: field_ids where
  "test_ids = \<lparr>last_known_stage_id = ''last_stage'',
               last_time_stage_changed_id = ''last_time'',
               days_in_current_stage_id = ''days_in_cur_stage''\<rparr>"

definition test_stages :: "pipeline_stage list" where
  "test_stages = [\<lparr>STAGE_ID = 1, STAGE_ORDER = 1\<rparr>, \<lparr>STAGE_ID = 2, STAGE_ORDER = 2\<rparr>]"

definition cf :: "string \<Rightarrow> pyval \<Rightarrow> custom_field" where
  "cf field_id v = \<lparr>CUSTOM_FIELD_ID = field_id, FIELD_VALUE = Some v\<rparr>"

definition tracked :: "pyval \<Rightarrow> pyval \<Rightarrow> pyval \<Rightarrow> custom_field list" where
  "tracked a b c = [cf ''last_stage'' a, cf ''last_time'' b, cf ''days_in_cur_stage'' c]"

definition noon :: "int \<Rightarrow> int" where
  "noon d = midnight d + 43200000000"

text \<open>
  Opportunities, servers and a clock for the examples: an opportunity with the stage id
  0, lists with a duplicated entry and with a recorded stage, the new opportunity of the
  first test, the three field definitions of the tests, and a server that answers every
  request with status 200.
\<close>

definition stage_zero_opp :: opportunity where
  "stage_zero_opp = \<lparr>OPPORTUNITY_ID = 1, OPP_STAGE_ID = Some 0, CUSTOMFIELDS = []\<rparr>"

definition noon_clock :: "nat \<Rightarrow> int \<times> int" where
  "noon_clock i = (noon 10, noon 10)"

definition ok_put :: "opportunity \<Rightarrow> nat" where
  "ok_put opp = 200"

definition duplicate_opp :: opportunity where
  "duplicate_opp = \<lparr>OPPORTUNITY_ID = 1, OPP_STAGE_ID = Some 1,
     CUSTOMFIELDS = [cf ''last_stage'' (PInt 1), cf ''last_stage'' (PInt 1)]\<rparr>"

definition regressed_opp :: opportunity where
  "regressed_opp = \<lparr>OPPORTUNITY_ID = 1, OPP_STAGE_ID = Some 1,
     CUSTOMFIELDS = tracked (PInt 2) (PDay 5) (PInt 3)\<rparr>"

definition new_opp :: "int \<Rightarrow> int \<Rightarrow> opportunity" where
  "new_opp opportunity_id stage_id =
     \<lparr>OPPORTUNITY_ID = opportunity_id, OPP_STAGE_ID = Some stage_id, CUSTOMFIELDS = []\<rparr>"

definition test_field_defs :: "field_definition list" where
  "test_field_defs =
     [\<lparr>DEF_FIELD_ID = ''last_stage'', FIELD_FOR = ''OPPORTUNITY'', FIELD_NAME = ''last known stage''\<rparr>,
      \<lparr>DEF_FIELD_ID = ''last_time'', FIELD_FOR = ''OPPORTUNITY'',
        FIELD_NAME = ''last time stage changed''\<rparr>,
      \<lparr>DEF_FIELD_ID = ''days_in_cur_stage'', FIELD_FOR = ''OPPORTUNITY'',
        FIELD_NAME = ''days in current stage''\<rparr>]"

definition test_server :: "field_definition list \<Rightarrow> opportunity list \<Rightarrow> server" where
  "test_server field_defs opps =
     \<lparr>custom_fields_response = \<lparr>status_code = 200, content = field_defs\<rparr>,
      opportunities_response = paged_server opps 100,
      pipeline_stages_response = \<lparr>status_code = 200, content = test_stages\<rparr>,
      put_status = ok_put\<rparr>"

definition five_opps :: "opportunity list" where
  "five_opps = [new_opp 1 1, new_opp 2 1, new_opp 3 1, new_opp 4 1, new_opp 5 1]"

definition paging_test_server :: "nat \<Rightarrow> opportunity list \<Rightarrow> server" where
  "paging_test_server page opps =
     (test_server test_field_defs opps)\<lparr>opportunities_response := paged_server opps page\<rparr>"

definition tracked_opp :: "int \<Rightarrow> pyval \<Rightarrow> pyval \<Rightarrow> pyval \<Rightarrow> opportunity" where
  "tracked_opp stage_id a b c =
     \<lparr>OPPORTUNITY_ID = 1, OPP_STAGE_ID = Some stage_id, CUSTOMFIELDS = tracked a b c\<rparr>"

section \<open>Properties of the custom-field list\<close>

lemma first_index_less: "first_index f cfs = Some i \<Longrightarrow> i < length cfs"
  by (induction cfs arbitrary: i) (auto split: if_splits)

lemma first_index_id: "first_index f cfs = Some i \<Longrightarrow> CUSTOM_FIELD_ID (cfs ! i) = f"
  by (induction cfs arbitrary: i) (auto split: if_splits)

lemma first_index_None_iff: "first_index f cfs = None \<longleftrightarrow> (\<forall>x \<in> set cfs. CUSTOM_FIELD_ID x \<noteq> f)"
  by (induction cfs) auto

lemma first_index_append:
  "first_index f (xs @ ys) =
     (case first_index f xs of
        Some i \<Rightarrow> Some i
      | None \<Rightarrow> map_option (\<lambda>j. length xs + j) (first_index f ys))"
proof (induction xs)
  case Nil
  show ?case by (cases "first_index f ys") simp_all
next
  case (Cons x xs)
  then show ?case
    by (cases "first_index f xs"; cases "first_index f ys") simp_all
qed

lemma first_index_set_value [simp]: "first_index f (set_value i v cfs) = first_index f cfs"
proof (induction cfs arbitrary: i)
  case Nil
  then show ?case by (simp add: set_value_def)
next
  case (Cons x xs)
  show ?case
  proof (cases i)
    case 0
    then show ?thesis by (simp add: set_value_def)
  next
    case (Suc j)
    have "set_value (Suc j) v (x # xs) = x # set_value j v xs"
      by (simp add: set_value_def)
    then show ?thesis using Cons Suc by simp
  qed
qed

lemma length_set_value [simp]: "length (set_value i v cfs) = length cfs"
  by (simp add: set_value_def)

lemma nth_set_value:
  "i < length cfs \<Longrightarrow>
   set_value i v cfs ! j = (if j = i then (cfs ! i)\<lparr>FIELD_VALUE := Some v\<rparr> else cfs ! j)"
  by (simp add: set_value_def nth_list_update)

lemma first_index_write_value [simp]: "first_index f (write_value g v cfs) = first_index f cfs"
  by (simp add: write_value_def split: option.splits)

lemma first_index_inj:
  "first_index f cfs = Some i \<Longrightarrow> first_index g cfs = Some i \<Longrightarrow> f = g"
  using first_index_id by blast

lemma read_default_write_value:
  "read_default f d (write_value g v cfs) =
     (if f = g \<and> first_index g cfs \<noteq> None then Some v else read_default f d cfs)"
proof (cases "first_index g cfs")
  case None
  then show ?thesis by (simp add: write_value_def)
next
  case (Some i)
  note gi = Some
  show ?thesis
  proof (cases "first_index f cfs")
    case None
    then show ?thesis using gi by (auto simp: read_default_def)
  next
    case (Some j)
    have "f \<noteq> g \<Longrightarrow> j \<noteq> i" using first_index_inj gi Some by blast
    then show ?thesis
      using gi Some first_index_less [OF gi]
      by (auto simp: read_default_def write_value_def nth_set_value)
  qed
qed

lemma first_index_get_custom_field:
  "first_index f (fst (get_custom_field cfs g d)) =
     (case first_index f cfs of
        Some i \<Rightarrow> Some i
      | None \<Rightarrow> if f = g then Some (length cfs) else None)"
  by (auto simp: get_custom_field_def first_index_append split: option.splits)

lemma snd_get_custom_field:
  "first_index g (fst (get_custom_field cfs g d)) = Some (snd (get_custom_field cfs g d))"
  by (auto simp: get_custom_field_def first_index_append split: option.splits)

lemma read_default_get_custom_field:
  "read_default f d (fst (get_custom_field cfs g d')) =
     (if f = g then read_default g d' cfs else read_default f d cfs)"
  by (auto simp: read_default_def get_custom_field_def first_index_append nth_append
      dest: first_index_less split: option.splits)

lemma field_value_read_default: "field_value f cfs = read_default f None cfs"
  by (simp add: field_value_def read_default_def)


text \<open>
  The references the tracker holds are the positions of the first entries of the three
  ids in the completed list, so every write of the tracker goes through \<open>write_value\<close>
  and every read through \<open>field_value\<close>.
\<close>

lemma track_char:
  "track ids stage_order now1 now2 cfs0 =
    (let cfs3 = synthesized ids now1 cfs0 in
     case field_value (last_known_stage_id ids) cfs3 of
       None \<Rightarrow> Inr (first_time ids stage_order now2 cfs3)
     | Some recorded \<Rightarrow>
         if \<not> truthy recorded then Inr (first_time ids stage_order now2 cfs3)
         else if py_eq stage_order recorded then
           (case field_value (last_time_stage_changed_id ids) cfs3 of
              None \<Rightarrow> Inl KeyError
            | Some text \<Rightarrow>
                (case strptime text of
                   Inl e \<Rightarrow> Inl e
                 | Inr last_time \<Rightarrow>
                     Inr (write_value (days_in_current_stage_id ids)
                            (PInt (timedelta_days now2 last_time)) cfs3)))
         else if py_gt stage_order recorded then
           Inr (write_value (last_known_stage_id ids) (PInt stage_order)
                 (write_value (last_time_stage_changed_id ids) (strftime now2)
                   (write_value (days_in_current_stage_id ids) (PInt 0) cfs3)))
         else Inr cfs3)"
proof -
  define lks where "lks = last_known_stage_id ids"
  define lts where "lts = last_time_stage_changed_id ids"
  define dcs where "dcs = days_in_current_stage_id ids"
  define g1 where "g1 = get_custom_field cfs0 lks None"
  define g2 where "g2 = get_custom_field (fst g1) lts (Some (strftime now1))"
  define g3 where "g3 = get_custom_field (fst g2) dcs (Some (PInt 0))"
  define cfs3 where "cfs3 = fst g3"
  have syn: "synthesized ids now1 cfs0 = cfs3"
    by (simp add: synthesized_def cfs3_def g3_def g2_def g1_def lks_def lts_def dcs_def)
  have i1: "first_index lks (fst g1) = Some (snd g1)"
    unfolding g1_def by (rule snd_get_custom_field)
  have i2: "first_index lts (fst g2) = Some (snd g2)"
    unfolding g2_def by (rule snd_get_custom_field)
  have i3: "first_index dcs cfs3 = Some (snd g3)"
    unfolding cfs3_def g3_def by (rule snd_get_custom_field)
  have i1': "first_index lks cfs3 = Some (snd g1)"
    using i1 by (simp add: cfs3_def g3_def g2_def first_index_get_custom_field)
  have i2': "first_index lts cfs3 = Some (snd g2)"
    using i2 by (simp add: cfs3_def g3_def first_index_get_custom_field)
  have w1: "set_value (snd g1) v xs = write_value lks v xs" if "first_index lks xs = Some (snd g1)" for v xs
    using that by (simp add: write_value_def)
  have w2: "set_value (snd g2) v xs = write_value lts v xs" if "first_index lts xs = Some (snd g2)" for v xs
    using that by (simp add: write_value_def)
  have w3: "set_value (snd g3) v xs = write_value dcs v xs" if "first_index dcs xs = Some (snd g3)" for v xs
    using that by (simp add: write_value_def)
  have v1: "FIELD_VALUE (cfs3 ! snd g1) = field_value lks cfs3"
    using i1' by (simp add: field_value_def)
  have v2: "FIELD_VALUE (cfs3 ! snd g2) = field_value lts cfs3"
    using i2' by (simp add: field_value_def)
  have unf: "track ids stage_order now1 now2 cfs0 =
    (if truthy (dict_get (cfs3 ! snd g1)) then
          (case subscript (cfs3 ! snd g1) of
             Inl e \<Rightarrow> Inl e
           | Inr recorded \<Rightarrow>
               if py_eq stage_order recorded then
                 (case subscript (cfs3 ! snd g2) of
                    Inl e \<Rightarrow> Inl e
                  | Inr text \<Rightarrow>
                      (case strptime text of
                         Inl e \<Rightarrow> Inl e
                       | Inr last_time \<Rightarrow>
                           Inr (set_value (snd g3)
                                  (PInt (timedelta_days now2 last_time)) cfs3)))
               else if py_gt stage_order recorded then
                 Inr (set_value (snd g1) (PInt stage_order)
                       (set_value (snd g2) (strftime now2)
                         (set_value (snd g3) (PInt 0) cfs3)))
               else Inr cfs3)
        else
          Inr (set_value (snd g2) (strftime now2)
                (set_value (snd g1) (PInt stage_order) cfs3)))"
    unfolding track_def Let_def split_beta cfs3_def g3_def g2_def g1_def lks_def lts_def dcs_def
    by (rule refl)
  have f: "set_value (snd g2) (strftime now2) (set_value (snd g1) (PInt stage_order) cfs3)
      = first_time ids stage_order now2 cfs3"
    using i1' i2' by (simp add: first_time_def w1 w2 lks_def [symmetric] lts_def [symmetric])
  have g: "set_value (snd g1) (PInt stage_order)
                       (set_value (snd g2) (strftime now2)
                         (set_value (snd g3) (PInt 0) cfs3))
     = write_value lks (PInt stage_order) (write_value lts (strftime now2) (write_value dcs (PInt 0) cfs3))"
    using i1' i2' i3 by (simp add: w1 w2 w3)
  have e: "set_value (snd g3) v cfs3 = write_value dcs v cfs3" for v
    using i3 by (simp add: w3)
  show ?thesis
    unfolding unf syn Let_def f e
    unfolding lks_def [symmetric] lts_def [symmetric] dcs_def [symmetric]
    by (cases "field_value lks cfs3"; cases "field_value lts cfs3")
       (simp_all add: dict_get_def subscript_def v1 v2 w1 w2 i1' i2')
qed


lemma read_default_present:
  "first_index f cfs \<noteq> None \<Longrightarrow> read_default f d cfs = field_value f cfs"
  by (auto simp: read_default_def field_value_def)

lemma field_value_Some_present: "field_value f cfs = Some v \<Longrightarrow> first_index f cfs \<noteq> None"
  by (auto simp: field_value_def split: option.splits)

lemma first_index_synthesized:
  "first_index (last_known_stage_id ids) (synthesized ids now1 cfs0) \<noteq> None"
  "first_index (last_time_stage_changed_id ids) (synthesized ids now1 cfs0) \<noteq> None"
  "first_index (days_in_current_stage_id ids) (synthesized ids now1 cfs0) \<noteq> None"
  by (auto simp: synthesized_def first_index_get_custom_field split: option.splits)

lemma field_value_synthesized:
  assumes "distinct_ids ids"
  shows "field_value (last_known_stage_id ids) (synthesized ids now1 cfs0) =
           field_value (last_known_stage_id ids) cfs0"
    and "field_value (last_time_stage_changed_id ids) (synthesized ids now1 cfs0) =
           read_default (last_time_stage_changed_id ids) (Some (strftime now1)) cfs0"
    and "field_value (days_in_current_stage_id ids) (synthesized ids now1 cfs0) =
           read_default (days_in_current_stage_id ids) (Some (PInt 0)) cfs0"
  using assms
  by (auto simp: distinct_ids_def synthesized_def field_value_read_default
      read_default_get_custom_field)

lemma field_value_synthesized_present:
  assumes "first_index f cfs0 \<noteq> None"
  shows "field_value f (synthesized ids now1 cfs0) = field_value f cfs0"
proof -
  have "first_index f (fst (get_custom_field cfs g d)) = first_index f cfs"
    if "first_index f cfs \<noteq> None" for cfs g d
    using that by (auto simp: first_index_get_custom_field)
  moreover have "fst (get_custom_field cfs g d) ! i = cfs ! i" if "i < length cfs" for cfs g d i
    using that by (auto simp: get_custom_field_def nth_append split: option.splits)
  ultimately have "field_value f (fst (get_custom_field cfs g d)) = field_value f cfs"
    if "first_index f cfs \<noteq> None" for cfs g d
    using that first_index_less [of f cfs] by (auto simp: field_value_def)
  moreover have "first_index f (fst (get_custom_field cfs g d)) \<noteq> None"
    if "first_index f cfs \<noteq> None" for cfs g d
    using that by (auto simp: first_index_get_custom_field)
  ultimately show ?thesis
    using assms by (simp add: synthesized_def)
qed

lemma field_value_write_value:
  "field_value f (write_value g v cfs) =
     (if f = g \<and> first_index g cfs \<noteq> None then Some v else field_value f cfs)"
  by (auto simp: field_value_read_default read_default_write_value)

lemma timedelta_days_midnight: "timedelta_days t (midnight d) = date_of t - d"
proof -
  have "(t + (- d) * usec_per_day) div usec_per_day = - d + t div usec_per_day"
    by (rule div_mult_self1) (simp add: usec_per_day_def)
  then show ?thesis
    by (simp add: timedelta_days_def midnight_def date_of_def)
qed

lemma track_first_time:
  "\<not> is_recorded (field_value (last_known_stage_id ids) (synthesized ids now1 cfs0)) \<Longrightarrow>
   track ids stage_order now1 now2 cfs0 =
     Inr (first_time ids stage_order now2 (synthesized ids now1 cfs0))"
  by (simp add: track_char is_recorded_def split: option.splits)

lemma track_equal:
  "field_value (last_known_stage_id ids) (synthesized ids now1 cfs0) = Some (PInt stage_order) \<Longrightarrow>
   stage_order \<noteq> 0 \<Longrightarrow>
   field_value (last_time_stage_changed_id ids) (synthesized ids now1 cfs0) = Some (PDay d) \<Longrightarrow>
   track ids stage_order now1 now2 cfs0 =
     Inr (write_value (days_in_current_stage_id ids) (PInt (date_of now2 - d))
           (synthesized ids now1 cfs0))"
  by (simp add: track_char timedelta_days_midnight)

lemma track_greater:
  "field_value (last_known_stage_id ids) (synthesized ids now1 cfs0) = Some (PInt k) \<Longrightarrow>
   k \<noteq> 0 \<Longrightarrow> k < stage_order \<Longrightarrow>
   track ids stage_order now1 now2 cfs0 =
     Inr (write_value (last_known_stage_id ids) (PInt stage_order)
           (write_value (last_time_stage_changed_id ids) (strftime now2)
             (write_value (days_in_current_stage_id ids) (PInt 0) (synthesized ids now1 cfs0))))"
  by (simp add: track_char)

lemma track_less:
  "field_value (last_known_stage_id ids) (synthesized ids now1 cfs0) = Some (PInt k) \<Longrightarrow>
   k \<noteq> 0 \<Longrightarrow> stage_order < k \<Longrightarrow>
   track ids stage_order now1 now2 cfs0 = Inr (synthesized ids now1 cfs0)"
  by (simp add: track_char)

section \<open>The tracker's branches\<close>

text \<open>
  C10. When the entry of \<open>last_known_stage\<close> is present but holds a falsy value (the
  integer 0, the empty text, null), the tracker takes the first-time branch and no
  comparison is made: it writes the current stage order into \<open>last_known_stage\<close> and
  then today's date into \<open>last_time_stage_changed\<close>, on the list completed with the
  missing entries. Afterwards \<open>last_time_stage_changed\<close> reads today, and
  \<open>last_known_stage\<close> reads the stage order (the two being different fields).
\<close>

theorem falsy_recorded_value_takes_first_time_branch:
  assumes "field_value (last_known_stage_id ids) cfs0 = Some v" and "\<not> truthy v"
  shows "track ids stage_order now1 now2 cfs0 =
           Inr (first_time ids stage_order now2 (synthesized ids now1 cfs0)) \<and>
         field_value (last_time_stage_changed_id ids)
           (first_time ids stage_order now2 (synthesized ids now1 cfs0)) = Some (strftime now2) \<and>
         (last_known_stage_id ids \<noteq> last_time_stage_changed_id ids \<longrightarrow>
          field_value (last_known_stage_id ids)
            (first_time ids stage_order now2 (synthesized ids now1 cfs0)) =
            Some (PInt stage_order))"
proof -
  have p: "first_index (last_known_stage_id ids) cfs0 \<noteq> None"
    using assms(1) by (rule field_value_Some_present)
  have "field_value (last_known_stage_id ids) (synthesized ids now1 cfs0) = Some v"
    using field_value_synthesized_present [OF p] assms(1) by simp
  then have "track ids stage_order now1 now2 cfs0 =
      Inr (first_time ids stage_order now2 (synthesized ids now1 cfs0))"
    using assms(2) by (simp add: track_char)
  then show ?thesis
    by (simp add: first_time_def field_value_write_value first_index_synthesized)
qed

theorem falsy_recorded_value_takes_first_time_branch_witness:
  "field_value (last_known_stage_id test_ids) (tracked (PInt 0) (PDay 5) (PInt 7)) = Some (PInt 0) \<and>
   \<not> truthy (PInt 0) \<and>
   last_known_stage_id test_ids \<noteq> last_time_stage_changed_id test_ids \<and>
   track test_ids 1 (noon 10) (noon 10) (tracked (PInt 0) (PDay 5) (PInt 7)) =
     Inr (tracked (PInt 1) (PDay 10) (PInt 7)) \<and>
   field_value (last_known_stage_id test_ids) (tracked (PInt 1) (PDay 10) (PInt 7)) = Some (PInt 1)"
proof -
  have h1: "field_value (last_known_stage_id test_ids) (tracked (PInt 0) (PDay 5) (PInt 7)) =
      Some (PInt 0)"
    by (simp add: field_value_def test_ids_def tracked_def cf_def)
  have h2: "\<not> truthy (PInt 0)"
    by simp
  have "first_time test_ids 1 (noon 10) (synthesized test_ids (noon 10) (tracked (PInt 0) (PDay 5) (PInt 7)))
      = tracked (PInt 1) (PDay 10) (PInt 7)"
    by (simp add: first_time_def synthesized_def write_value_def set_value_def
        get_custom_field_def test_ids_def tracked_def cf_def strftime_def date_of_def noon_def
        midnight_def usec_per_day_def)
  moreover have "last_known_stage_id test_ids \<noteq> last_time_stage_changed_id test_ids"
    by (simp add: test_ids_def)
  ultimately show ?thesis
    using falsy_recorded_value_takes_first_time_branch [OF h1 h2, of 1 "noon 10" "noon 10"] h1
    by simp
qed

text \<open>
  C5 (as amended). The three field ids being pairwise distinct: when the recorded
  \<open>last_known_stage\<close> is a non-zero integer equal to the current stage order, and
  \<open>last_time_stage_changed\<close> reads as the date \<open>d\<close> (stored, or today when its entry is
  missing), the tracker sets \<open>days_in_current_stage\<close> to the number of whole days from
  \<open>d\<close> to today's date, and \<open>last_known_stage\<close> and \<open>last_time_stage_changed\<close> read as
  before. The source subtracts midnight of \<open>d\<close> from the untruncated current time and
  takes the days of the difference, which is the difference of the two dates.
\<close>

theorem lingering_stage_recomputes_days:
  assumes "distinct_ids ids"
    and "field_value (last_known_stage_id ids) cfs0 = Some (PInt stage_order)"
    and "stage_order \<noteq> 0"
    and "read_default (last_time_stage_changed_id ids) (Some (strftime now1)) cfs0 = Some (PDay d)"
  shows "\<exists>cfs'. track ids stage_order now1 now2 cfs0 = Inr cfs' \<and>
           field_value (days_in_current_stage_id ids) cfs' = Some (PInt (date_of now2 - d)) \<and>
           field_value (last_known_stage_id ids) cfs' = Some (PInt stage_order) \<and>
           field_value (last_time_stage_changed_id ids) cfs' = Some (PDay d)"
proof -
  let ?cfs3 = "synthesized ids now1 cfs0"
  have a: "field_value (last_known_stage_id ids) ?cfs3 = Some (PInt stage_order)"
    using assms(1,2) by (simp add: field_value_synthesized)
  have b: "field_value (last_time_stage_changed_id ids) ?cfs3 = Some (PDay d)"
    using assms(1,4) by (simp add: field_value_synthesized)
  have "track ids stage_order now1 now2 cfs0 =
      Inr (write_value (days_in_current_stage_id ids) (PInt (date_of now2 - d)) ?cfs3)"
    using a assms(3) b by (rule track_equal)
  moreover have "field_value (days_in_current_stage_id ids)
      (write_value (days_in_current_stage_id ids) (PInt (date_of now2 - d)) ?cfs3) =
      Some (PInt (date_of now2 - d))"
    by (simp add: field_value_write_value first_index_synthesized)
  moreover have "field_value (last_known_stage_id ids)
      (write_value (days_in_current_stage_id ids) (PInt (date_of now2 - d)) ?cfs3) =
      Some (PInt stage_order)"
    using assms(1) a by (simp add: field_value_write_value distinct_ids_def)
  moreover have "field_value (last_time_stage_changed_id ids)
      (write_value (days_in_current_stage_id ids) (PInt (date_of now2 - d)) ?cfs3) =
      Some (PDay d)"
    using assms(1) b by (simp add: field_value_write_value distinct_ids_def)
  ultimately show ?thesis by blast
qed

theorem lingering_stage_recomputes_days_witness:
  "distinct_ids test_ids \<and>
   field_value (last_known_stage_id test_ids) (tracked (PInt 1) (PDay 5) (PInt 0)) = Some (PInt 1) \<and>
   (1::int) \<noteq> 0 \<and>
   read_default (last_time_stage_changed_id test_ids) (Some (strftime (noon 10)))
     (tracked (PInt 1) (PDay 5) (PInt 0)) = Some (PDay 5) \<and>
   (\<exists>cfs'. track test_ids 1 (noon 10) (noon 10) (tracked (PInt 1) (PDay 5) (PInt 0)) = Inr cfs' \<and>
      field_value (days_in_current_stage_id test_ids) cfs' = Some (PInt (date_of (noon 10) - 5)) \<and>
      field_value (last_known_stage_id test_ids) cfs' = Some (PInt 1) \<and>
      field_value (last_time_stage_changed_id test_ids) cfs' = Some (PDay 5))"
proof -
  have h1: "distinct_ids test_ids"
    by (simp add: distinct_ids_def test_ids_def)
  have h2: "field_value (last_known_stage_id test_ids) (tracked (PInt 1) (PDay 5) (PInt 0)) =
      Some (PInt 1)"
    by (simp add: field_value_def test_ids_def tracked_def cf_def)
  have h3: "(1::int) \<noteq> 0"
    by simp
  have h4: "read_default (last_time_stage_changed_id test_ids) (Some (strftime (noon 10)))
      (tracked (PInt 1) (PDay 5) (PInt 0)) = Some (PDay 5)"
    by (simp add: read_default_def test_ids_def tracked_def cf_def)
  show ?thesis
    using lingering_stage_recomputes_days [OF h1 h2 h3 h4, of "noon 10"] h1 h2 h4
    by simp
qed

text \<open>
  C5 as stated fails when the recorded value is 0: at stage order 0, recorded
  five days ago, the tracker takes the first-time branch, moves
  \<open>last_time_stage_changed\<close> to today and leaves \<open>days_in_current_stage\<close> at 0, where the
  claim asks for the date of five days ago and for 5.
\<close>

theorem lingering_stage_recomputes_days_counterexample:
  "py_eq 0 (PInt 0) \<and>
   track test_ids 0 (noon 10) (noon 10) (tracked (PInt 0) (PDay 5) (PInt 0)) =
     Inr (tracked (PInt 0) (PDay 10) (PInt 0)) \<and>
   tracked (PInt 0) (PDay 10) (PInt 0) \<noteq> tracked (PInt 0) (PDay 5) (PInt 5)"
  by (simp add: track_def get_custom_field_def set_value_def dict_get_def test_ids_def
      tracked_def cf_def strftime_def date_of_def noon_def midnight_def usec_per_day_def)

text \<open>
  C6 (as amended). The three field ids being pairwise distinct: when the recorded
  \<open>last_known_stage\<close> is a non-zero integer strictly below the current stage order, the
  tracker sets \<open>days_in_current_stage\<close> to 0, \<open>last_time_stage_changed\<close> to today's date
  and \<open>last_known_stage\<close> to the current stage order.
\<close>

theorem advanced_stage_resets_days:
  assumes "distinct_ids ids"
    and "field_value (last_known_stage_id ids) cfs0 = Some (PInt k)"
    and "k \<noteq> 0"
    and "k < stage_order"
  shows "\<exists>cfs'. track ids stage_order now1 now2 cfs0 = Inr cfs' \<and>
           field_value (days_in_current_stage_id ids) cfs' = Some (PInt 0) \<and>
           field_value (last_time_stage_changed_id ids) cfs' = Some (strftime now2) \<and>
           field_value (last_known_stage_id ids) cfs' = Some (PInt stage_order)"
proof -
  let ?cfs3 = "synthesized ids now1 cfs0"
  let ?out = "write_value (last_known_stage_id ids) (PInt stage_order)
           (write_value (last_time_stage_changed_id ids) (strftime now2)
             (write_value (days_in_current_stage_id ids) (PInt 0) ?cfs3))"
  have a: "field_value (last_known_stage_id ids) ?cfs3 = Some (PInt k)"
    using assms(1,2) by (simp add: field_value_synthesized)
  have "track ids stage_order now1 now2 cfs0 = Inr ?out"
    using a assms(3,4) by (rule track_greater)
  moreover have "field_value (days_in_current_stage_id ids) ?out = Some (PInt 0)"
    using assms(1) by (auto simp: field_value_write_value first_index_synthesized distinct_ids_def)
  moreover have "field_value (last_time_stage_changed_id ids) ?out = Some (strftime now2)"
    using assms(1) by (auto simp: field_value_write_value first_index_synthesized distinct_ids_def)
  moreover have "field_value (last_known_stage_id ids) ?out = Some (PInt stage_order)"
    by (simp add: field_value_write_value first_index_synthesized)
  ultimately show ?thesis by blast
qed

theorem advanced_stage_resets_days_witness:
  "distinct_ids test_ids \<and>
   field_value (last_known_stage_id test_ids) (tracked (PInt 1) (PDay 3) (PInt 4)) = Some (PInt 1) \<and>
   (1::int) \<noteq> 0 \<and> (1::int) < 2 \<and>
   (\<exists>cfs'. track test_ids 2 (noon 10) (noon 10) (tracked (PInt 1) (PDay 3) (PInt 4)) = Inr cfs' \<and>
      field_value (days_in_current_stage_id test_ids) cfs' = Some (PInt 0) \<and>
      field_value (last_time_stage_changed_id test_ids) cfs' = Some (strftime (noon 10)) \<and>
      field_value (last_known_stage_id test_ids) cfs' = Some (PInt 2))"
proof -
  have h1: "distinct_ids test_ids"
    by (simp add: distinct_ids_def test_ids_def)
  have h2: "field_value (last_known_stage_id test_ids) (tracked (PInt 1) (PDay 3) (PInt 4)) =
      Some (PInt 1)"
    by (simp add: field_value_def test_ids_def tracked_def cf_def)
  have h3: "(1::int) \<noteq> 0" and h4: "(1::int) < 2"
    by simp_all
  show ?thesis
    using advanced_stage_resets_days [OF h1 h2 h3 h4, of "noon 10" "noon 10"] h1 h2
    by simp
qed

text \<open>
  C6 as stated fails when the recorded value is 0: with 7 stored in
  \<open>days_in_current_stage\<close> and stage order 1, the tracker takes the first-time branch and
  the 7 stays.
\<close>

theorem advanced_stage_resets_days_counterexample:
  "py_gt 1 (PInt 0) \<and>
   track test_ids 1 (noon 10) (noon 10) (tracked (PInt 0) (PDay 5) (PInt 7)) =
     Inr (tracked (PInt 1) (PDay 10) (PInt 7)) \<and>
   field_value (days_in_current_stage_id test_ids) (tracked (PInt 1) (PDay 10) (PInt 7)) \<noteq>
     Some (PInt 0)"
  by (simp add: track_def get_custom_field_def set_value_def dict_get_def field_value_def
      test_ids_def tracked_def cf_def strftime_def date_of_def noon_def midnight_def
      usec_per_day_def)

section \<open>One opportunity\<close>

lemma process_opp_found:
  "OPP_STAGE_ID opp = Some sid \<Longrightarrow> sid \<noteq> 0 \<Longrightarrow> stages sid = Some stage \<Longrightarrow>
   process_opp ids stages nows opp =
     (case track ids (STAGE_ORDER stage) (fst nows) (snd nows) (CUSTOMFIELDS opp) of
        Inl e \<Rightarrow> Raising e
      | Inr cfs \<Rightarrow> Persist (opp\<lparr>CUSTOMFIELDS := cfs\<rparr>))"
  by (simp add: process_opp_def)

lemma process_opp_Persist:
  "process_opp ids stages nows opp = Persist opp' \<Longrightarrow>
   \<exists>stage_order cfs. track ids stage_order (fst nows) (snd nows) (CUSTOMFIELDS opp) = Inr cfs \<and>
      opp' = opp\<lparr>CUSTOMFIELDS := cfs\<rparr>"
  by (auto simp: process_opp_def split: option.splits if_splits sum.splits)

text \<open>
  C4 (as amended). For an opportunity whose stage id is neither null nor 0 and is found in
  the catalog, with no recorded value of \<open>last_known_stage\<close> (no entry, no
  \<^verbatim>\<open>FIELD_VALUE\<close>, or a falsy one) and the three field ids pairwise distinct: line 198
  is reached with \<open>last_known_stage\<close> equal to the current stage order,
  \<open>last_time_stage_changed\<close> equal to today's date, and \<open>days_in_current_stage\<close> as it
  was read: the stored value, or 0 when the entry was missing.
\<close>

theorem untracked_opportunity_first_run:
  assumes "OPP_STAGE_ID opp = Some sid" and "sid \<noteq> 0" and "stages sid = Some stage"
    and "distinct_ids ids"
    and "\<not> is_recorded (field_value (last_known_stage_id ids) (CUSTOMFIELDS opp))"
  shows "\<exists>cfs'. process_opp ids stages (now1, now2) opp = Persist (opp\<lparr>CUSTOMFIELDS := cfs'\<rparr>) \<and>
           field_value (last_known_stage_id ids) cfs' = Some (PInt (STAGE_ORDER stage)) \<and>
           field_value (last_time_stage_changed_id ids) cfs' = Some (strftime now2) \<and>
           field_value (days_in_current_stage_id ids) cfs' =
             read_default (days_in_current_stage_id ids) (Some (PInt 0)) (CUSTOMFIELDS opp)"
proof -
  let ?cfs3 = "synthesized ids now1 (CUSTOMFIELDS opp)"
  let ?out = "first_time ids (STAGE_ORDER stage) now2 ?cfs3"
  have "\<not> is_recorded (field_value (last_known_stage_id ids) ?cfs3)"
    using assms(4,5) by (simp add: field_value_synthesized)
  then have "track ids (STAGE_ORDER stage) now1 now2 (CUSTOMFIELDS opp) = Inr ?out"
    by (rule track_first_time)
  then have "process_opp ids stages (now1, now2) opp = Persist (opp\<lparr>CUSTOMFIELDS := ?out\<rparr>)"
    using assms(1-3) by (simp add: process_opp_found)
  moreover have "field_value (last_known_stage_id ids) ?out = Some (PInt (STAGE_ORDER stage))"
    using assms(4)
    by (auto simp: first_time_def field_value_write_value first_index_synthesized distinct_ids_def)
  moreover have "field_value (last_time_stage_changed_id ids) ?out = Some (strftime now2)"
    by (simp add: first_time_def field_value_write_value first_index_synthesized)
  moreover have "field_value (days_in_current_stage_id ids) ?out =
      read_default (days_in_current_stage_id ids) (Some (PInt 0)) (CUSTOMFIELDS opp)"
    using assms(4)
    by (auto simp: first_time_def field_value_write_value field_value_synthesized distinct_ids_def)
  ultimately show ?thesis by blast
qed

theorem untracked_opportunity_first_run_witness:
  "OPP_STAGE_ID \<lparr>OPPORTUNITY_ID = 1, OPP_STAGE_ID = Some 1, CUSTOMFIELDS = []\<rparr> = Some 1 \<and>
   (1::int) \<noteq> 0 \<and>
   stage_catalog test_stages 1 = Some \<lparr>STAGE_ID = 1, STAGE_ORDER = 1\<rparr> \<and>
   distinct_ids test_ids \<and>
   \<not> is_recorded (field_value (last_known_stage_id test_ids)
        (CUSTOMFIELDS \<lparr>OPPORTUNITY_ID = 1, OPP_STAGE_ID = Some 1, CUSTOMFIELDS = []\<rparr>)) \<and>
   process_opp test_ids (stage_catalog test_stages) (noon 10, noon 10)
       \<lparr>OPPORTUNITY_ID = 1, OPP_STAGE_ID = Some 1, CUSTOMFIELDS = []\<rparr> =
     Persist \<lparr>OPPORTUNITY_ID = 1, OPP_STAGE_ID = Some 1,
              CUSTOMFIELDS = tracked (PInt 1) (PDay 10) (PInt 0)\<rparr>"
proof -
  let ?opp = "\<lparr>OPPORTUNITY_ID = 1, OPP_STAGE_ID = Some 1, CUSTOMFIELDS = []\<rparr>"
  have h1: "OPP_STAGE_ID ?opp = Some 1" by simp
  have h2: "(1::int) \<noteq> 0" by simp
  have h3: "stage_catalog test_stages 1 = Some \<lparr>STAGE_ID = 1, STAGE_ORDER = 1\<rparr>"
    by (simp add: stage_catalog_def test_stages_def)
  have h4: "distinct_ids test_ids"
    by (simp add: distinct_ids_def test_ids_def)
  have h5: "\<not> is_recorded (field_value (last_known_stage_id test_ids) (CUSTOMFIELDS ?opp))"
    by (simp add: is_recorded_def field_value_def)
  have e: "process_opp test_ids (stage_catalog test_stages) (noon 10, noon 10) ?opp =
     Persist \<lparr>OPPORTUNITY_ID = 1, OPP_STAGE_ID = Some 1,
              CUSTOMFIELDS = tracked (PInt 1) (PDay 10) (PInt 0)\<rparr>"
    by (simp add: process_opp_def h3 track_def get_custom_field_def set_value_def dict_get_def
        test_ids_def tracked_def cf_def strftime_def date_of_def noon_def midnight_def
        usec_per_day_def)
  show ?thesis
    using untracked_opportunity_first_run
      [of ?opp 1 "stage_catalog test_stages" _ test_ids "noon 10" "noon 10", OF h1 h2 h3 h4 h5]
      h1 h3 h4 h5 e
    by simp
qed

text \<open>
  C4 as stated fails for the stage id 0, which is not null: line 173 skips the
  opportunity although the catalog knows stage 0, and nothing is written or sent.
\<close>

theorem untracked_opportunity_first_run_counterexample:
  "OPP_STAGE_ID stage_zero_opp \<noteq> None \<and>
   stage_catalog [\<lparr>STAGE_ID = 0, STAGE_ORDER = 1\<rparr>] 0 = Some \<lparr>STAGE_ID = 0, STAGE_ORDER = 1\<rparr> \<and>
   field_value (last_known_stage_id test_ids) (CUSTOMFIELDS stage_zero_opp) = None \<and>
   process_opp test_ids (stage_catalog [\<lparr>STAGE_ID = 0, STAGE_ORDER = 1\<rparr>]) (noon 10, noon 10)
     stage_zero_opp = Continue \<and>
   process_loop test_ids (stage_catalog [\<lparr>STAGE_ID = 0, STAGE_ORDER = 1\<rparr>]) ok_put noon_clock 0
     [stage_zero_opp] = (Returned, [])"
  by (simp add: stage_zero_opp_def stage_catalog_def field_value_def process_opp_def)

section \<open>Entries kept, entries added\<close>

lemma get_custom_field_append: "\<exists>ys. fst (get_custom_field cfs g d) = cfs @ ys"
  by (simp add: get_custom_field_def split: option.splits)

lemma synthesized_prefix: "take (length cfs0) (synthesized ids now1 cfs0) = cfs0"
proof -
  obtain ys1 where a: "fst (get_custom_field cfs0 (last_known_stage_id ids) None) = cfs0 @ ys1"
    using get_custom_field_append by blast
  obtain ys2 where b: "fst (get_custom_field (cfs0 @ ys1) (last_time_stage_changed_id ids)
      (Some (strftime now1))) = (cfs0 @ ys1) @ ys2"
    using get_custom_field_append by blast
  obtain ys3 where c: "fst (get_custom_field ((cfs0 @ ys1) @ ys2) (days_in_current_stage_id ids)
      (Some (PInt 0))) = ((cfs0 @ ys1) @ ys2) @ ys3"
    using get_custom_field_append by blast
  have "synthesized ids now1 cfs0 = ((cfs0 @ ys1) @ ys2) @ ys3"
    unfolding synthesized_def a b c by (rule refl)
  then show ?thesis by simp
qed

lemma ids_set_value [simp]: "map CUSTOM_FIELD_ID (set_value i v cfs) = map CUSTOM_FIELD_ID cfs"
proof (cases "i < length cfs")
  case True
  then show ?thesis
    by (simp add: set_value_def map_update list_update_same_conv)
next
  case False
  then have "cfs[i := (cfs ! i)\<lparr>FIELD_VALUE := Some v\<rparr>] = cfs"
    by (simp add: list_update_beyond)
  then show ?thesis by (simp add: set_value_def)
qed

lemma ids_write_value [simp]: "map CUSTOM_FIELD_ID (write_value g v cfs) = map CUSTOM_FIELD_ID cfs"
  by (simp add: write_value_def split: option.splits)

lemma count_entries_ids:
  "count_entries f cfs = length (filter (\<lambda>x. x = f) (map CUSTOM_FIELD_ID cfs))"
  by (simp add: count_entries_def filter_map comp_def)

lemma count_entries_zero: "count_entries f cfs = 0 \<longleftrightarrow> first_index f cfs = None"
  by (induction cfs) (auto simp: count_entries_def)

lemma count_entries_get_custom_field:
  "count_entries f (fst (get_custom_field cfs g d)) =
     (if f = g then max 1 (count_entries f cfs) else count_entries f cfs)"
proof (cases "first_index g cfs")
  case None
  then have "count_entries g cfs = 0" by (simp add: count_entries_zero)
  then show ?thesis
    using None by (auto simp: get_custom_field_def count_entries_def)
next
  case (Some i)
  then have "count_entries g cfs \<noteq> 0" by (simp add: count_entries_zero)
  then show ?thesis
    using Some by (auto simp: get_custom_field_def)
qed

lemma count_entries_synthesized:
  "count_entries (last_known_stage_id ids) (synthesized ids now1 cfs0) =
     max 1 (count_entries (last_known_stage_id ids) cfs0)"
  "count_entries (last_time_stage_changed_id ids) (synthesized ids now1 cfs0) =
     max 1 (count_entries (last_time_stage_changed_id ids) cfs0)"
  "count_entries (days_in_current_stage_id ids) (synthesized ids now1 cfs0) =
     max 1 (count_entries (days_in_current_stage_id ids) cfs0)"
  by (simp_all add: synthesized_def count_entries_get_custom_field)

lemma track_ids:
  "track ids stage_order now1 now2 cfs0 = Inr cfs' \<Longrightarrow>
   map CUSTOM_FIELD_ID cfs' = map CUSTOM_FIELD_ID (synthesized ids now1 cfs0)"
  by (auto simp: track_char first_time_def Let_def split: option.splits if_splits sum.splits)

text \<open>
  C7 (as amended). For an opportunity with a truthy stage id found in the catalog, whose
  recorded \<open>last_known_stage\<close> is a non-zero integer strictly above the current stage
  order: line 198 is reached and the opportunity is sent, and its \<^verbatim>\<open>CUSTOMFIELDS\<close> list is
  the one it had, with the entries that were missing appended with their defaults. Every
  entry that was there is untouched, so every field that had an entry reads as before.
\<close>

theorem regressed_stage_changes_nothing:
  assumes "OPP_STAGE_ID opp = Some sid" and "sid \<noteq> 0" and "stages sid = Some stage"
    and "field_value (last_known_stage_id ids) (CUSTOMFIELDS opp) = Some (PInt k)"
    and "k \<noteq> 0" and "STAGE_ORDER stage < k"
  shows "process_opp ids stages (clock i) opp =
           Persist (opp\<lparr>CUSTOMFIELDS := synthesized ids (fst (clock i)) (CUSTOMFIELDS opp)\<rparr>) \<and>
         take (length (CUSTOMFIELDS opp)) (synthesized ids (fst (clock i)) (CUSTOMFIELDS opp)) =
           CUSTOMFIELDS opp \<and>
         (\<forall>f. first_index f (CUSTOMFIELDS opp) \<noteq> None \<longrightarrow>
              field_value f (synthesized ids (fst (clock i)) (CUSTOMFIELDS opp)) =
              field_value f (CUSTOMFIELDS opp)) \<and>
         (\<exists>r evs. process_loop ids stages put clock i (opp # opps) =
            (r, PUT (opp\<lparr>CUSTOMFIELDS := synthesized ids (fst (clock i)) (CUSTOMFIELDS opp)\<rparr>) # evs))"
proof -
  let ?cfs3 = "synthesized ids (fst (clock i)) (CUSTOMFIELDS opp)"
  have p: "first_index (last_known_stage_id ids) (CUSTOMFIELDS opp) \<noteq> None"
    using assms(4) by (rule field_value_Some_present)
  have "field_value (last_known_stage_id ids) ?cfs3 = Some (PInt k)"
    using field_value_synthesized_present [OF p] assms(4) by simp
  then have "track ids (STAGE_ORDER stage) (fst (clock i)) (snd (clock i)) (CUSTOMFIELDS opp) =
      Inr ?cfs3"
    using assms(5,6) by (rule track_less)
  then have a: "process_opp ids stages (clock i) opp = Persist (opp\<lparr>CUSTOMFIELDS := ?cfs3\<rparr>)"
    using assms(1-3) by (simp add: process_opp_found)
  have b: "\<exists>r evs. process_loop ids stages put clock i (opp # opps) =
      (r, PUT (opp\<lparr>CUSTOMFIELDS := ?cfs3\<rparr>) # evs)"
    by (simp add: a split: prod.splits)
  show ?thesis
    using a b by (simp add: synthesized_prefix field_value_synthesized_present)
qed

theorem regressed_stage_changes_nothing_witness:
  "OPP_STAGE_ID regressed_opp = Some 1 \<and> (1::int) \<noteq> 0 \<and>
   stage_catalog test_stages 1 = Some \<lparr>STAGE_ID = 1, STAGE_ORDER = 1\<rparr> \<and>
   field_value (last_known_stage_id test_ids) (CUSTOMFIELDS regressed_opp) = Some (PInt 2) \<and>
   (2::int) \<noteq> 0 \<and> STAGE_ORDER \<lparr>STAGE_ID = 1, STAGE_ORDER = 1\<rparr> < 2 \<and>
   first_index ''last_time'' (CUSTOMFIELDS regressed_opp) \<noteq> None \<and>
   process_opp test_ids (stage_catalog test_stages) (noon_clock 0) regressed_opp =
     Persist regressed_opp \<and>
   field_value ''last_time'' (synthesized test_ids (fst (noon_clock 0)) (CUSTOMFIELDS regressed_opp)) =
     Some (PDay 5) \<and>
   process_loop test_ids (stage_catalog test_stages) ok_put noon_clock 0 [regressed_opp] =
     (Returned, [PUT regressed_opp])"
proof -
  have h1: "OPP_STAGE_ID regressed_opp = Some 1"
    by (simp add: regressed_opp_def)
  have h2: "(1::int) \<noteq> 0" by simp
  have h3: "stage_catalog test_stages 1 = Some \<lparr>STAGE_ID = 1, STAGE_ORDER = 1\<rparr>"
    by (simp add: stage_catalog_def test_stages_def)
  have h4: "field_value (last_known_stage_id test_ids) (CUSTOMFIELDS regressed_opp) =
      Some (PInt 2)"
    by (simp add: field_value_def regressed_opp_def test_ids_def tracked_def cf_def)
  have h5: "(2::int) \<noteq> 0" by simp
  have h6: "STAGE_ORDER \<lparr>STAGE_ID = 1, STAGE_ORDER = 1\<rparr> < 2" by simp
  have h7: "first_index ''last_time'' (CUSTOMFIELDS regressed_opp) \<noteq> None"
    by (simp add: regressed_opp_def tracked_def cf_def)
  have s: "synthesized test_ids (fst (noon_clock 0)) (CUSTOMFIELDS regressed_opp) =
      CUSTOMFIELDS regressed_opp"
    by (simp add: synthesized_def get_custom_field_def regressed_opp_def test_ids_def
        tracked_def cf_def)
  have v: "field_value ''last_time'' (CUSTOMFIELDS regressed_opp) = Some (PDay 5)"
    by (simp add: field_value_def regressed_opp_def tracked_def cf_def)
  have p: "ok_put regressed_opp = 200"
    by (simp add: ok_put_def)
  show ?thesis
    using regressed_stage_changes_nothing
      [of regressed_opp 1 "stage_catalog test_stages" _ test_ids 2 noon_clock 0 ok_put "[]",
        OF h1 h2 h3 h4 h5 h6] h1 h3 h4 h7 s v p
    by auto
qed

text \<open>
  C7 as stated fails when the recorded value is 0: at stage order -1 the tracker
  takes the first-time branch and overwrites \<open>last_known_stage\<close> and
  \<open>last_time_stage_changed\<close>.
\<close>

theorem regressed_stage_changes_nothing_counterexample:
  "(-1::int) < 0 \<and>
   field_value (last_known_stage_id test_ids) (tracked (PInt 0) (PDay 5) (PInt 7)) = Some (PInt 0) \<and>
   track test_ids (-1) (noon 10) (noon 10) (tracked (PInt 0) (PDay 5) (PInt 7)) =
     Inr (tracked (PInt (-1)) (PDay 10) (PInt 7)) \<and>
   tracked (PInt (-1)) (PDay 10) (PInt 7) \<noteq> tracked (PInt 0) (PDay 5) (PInt 7)"
  by (simp add: track_def get_custom_field_def set_value_def dict_get_def field_value_def
      test_ids_def tracked_def cf_def strftime_def date_of_def noon_def midnight_def
      usec_per_day_def)

text \<open>
  C9 (as amended). After an opportunity has been processed up to line 198, its
  \<^verbatim>\<open>CUSTOMFIELDS\<close> list holds, for each of the three field ids, as many entries as before,
  and one when there was none: at least one entry, and exactly one when the list had at
  most one. Duplicates that were there stay.
\<close>

theorem one_entry_per_field_unless_duplicated:
  assumes "process_opp ids stages nows opp = Persist opp'"
  shows "count_entries (last_known_stage_id ids) (CUSTOMFIELDS opp') =
           max 1 (count_entries (last_known_stage_id ids) (CUSTOMFIELDS opp)) \<and>
         count_entries (last_time_stage_changed_id ids) (CUSTOMFIELDS opp') =
           max 1 (count_entries (last_time_stage_changed_id ids) (CUSTOMFIELDS opp)) \<and>
         count_entries (days_in_current_stage_id ids) (CUSTOMFIELDS opp') =
           max 1 (count_entries (days_in_current_stage_id ids) (CUSTOMFIELDS opp))"
proof -
  obtain stage_order cfs where
    t: "track ids stage_order (fst nows) (snd nows) (CUSTOMFIELDS opp) = Inr cfs"
    and o: "opp' = opp\<lparr>CUSTOMFIELDS := cfs\<rparr>"
    using process_opp_Persist [OF assms] by blast
  have "count_entries f cfs = count_entries f (synthesized ids (fst nows) (CUSTOMFIELDS opp))" for f
    using track_ids [OF t] by (simp add: count_entries_ids)
  then show ?thesis
    by (simp add: o count_entries_synthesized)
qed

theorem one_entry_per_field_unless_duplicated_witness:
  "process_opp test_ids (stage_catalog test_stages) (noon 10, noon 10)
       \<lparr>OPPORTUNITY_ID = 1, OPP_STAGE_ID = Some 1, CUSTOMFIELDS = []\<rparr> =
     Persist \<lparr>OPPORTUNITY_ID = 1, OPP_STAGE_ID = Some 1,
              CUSTOMFIELDS = tracked (PInt 1) (PDay 10) (PInt 0)\<rparr> \<and>
   count_entries (last_known_stage_id test_ids) (tracked (PInt 1) (PDay 10) (PInt 0)) = 1 \<and>
   count_entries (last_time_stage_changed_id test_ids) (tracked (PInt 1) (PDay 10) (PInt 0)) = 1 \<and>
   count_entries (days_in_current_stage_id test_ids) (tracked (PInt 1) (PDay 10) (PInt 0)) = 1"
proof -
  have h: "process_opp test_ids (stage_catalog test_stages) (noon 10, noon 10)
       \<lparr>OPPORTUNITY_ID = 1, OPP_STAGE_ID = Some 1, CUSTOMFIELDS = []\<rparr> =
     Persist \<lparr>OPPORTUNITY_ID = 1, OPP_STAGE_ID = Some 1,
              CUSTOMFIELDS = tracked (PInt 1) (PDay 10) (PInt 0)\<rparr>"
    by (simp add: process_opp_def stage_catalog_def test_stages_def track_def
        get_custom_field_def set_value_def dict_get_def
        test_ids_def tracked_def cf_def strftime_def date_of_def noon_def midnight_def
        usec_per_day_def)
  show ?thesis
    using one_entry_per_field_unless_duplicated [OF h] h
    by (simp add: count_entries_def)
qed

text \<open>
  C9 as stated fails for a list that already holds two entries of one field id:
  both are still there after processing.
\<close>

theorem one_entry_per_field_unless_duplicated_counterexample:
  "process_opp test_ids (stage_catalog test_stages) (noon 10, noon 10) duplicate_opp =
     Persist (duplicate_opp\<lparr>CUSTOMFIELDS :=
       [cf ''last_stage'' (PInt 1), cf ''last_stage'' (PInt 1),
        cf ''last_time'' (PDay 10), cf ''days_in_cur_stage'' (PInt 0)]\<rparr>) \<and>
   count_entries (last_known_stage_id test_ids)
       [cf ''last_stage'' (PInt 1), cf ''last_stage'' (PInt 1),
        cf ''last_time'' (PDay 10), cf ''days_in_cur_stage'' (PInt 0)] = 2"
  by (simp add: process_opp_def stage_catalog_def test_stages_def track_def duplicate_opp_def
      get_custom_field_def set_value_def dict_get_def subscript_def count_entries_def
      timedelta_days_def test_ids_def cf_def strftime_def date_of_def noon_def midnight_def
      usec_per_day_def)

section \<open>A second run on the same day\<close>

lemma first_index_ids:
  "map CUSTOM_FIELD_ID a = map CUSTOM_FIELD_ID b \<Longrightarrow> first_index f a = first_index f b"
proof (induction a arbitrary: b)
  case Nil
  then show ?case by simp
next
  case (Cons x a)
  then obtain y b' where b: "b = y # b'" by (cases b) auto
  with Cons.prems have "CUSTOM_FIELD_ID x = CUSTOM_FIELD_ID y"
    and "map CUSTOM_FIELD_ID a = map CUSTOM_FIELD_ID b'" by simp_all
  then show ?case using Cons.IH [of b'] b by simp
qed

lemma synthesized_complete:
  assumes "first_index (last_known_stage_id ids) cfs \<noteq> None"
    and "first_index (last_time_stage_changed_id ids) cfs \<noteq> None"
    and "first_index (days_in_current_stage_id ids) cfs \<noteq> None"
  shows "synthesized ids t cfs = cfs"
  using assms by (auto simp: synthesized_def get_custom_field_def)

lemma track_complete:
  assumes "track ids stage_order now1 now2 cfs0 = Inr cfs1"
  shows "synthesized ids t cfs1 = cfs1"
proof -
  have "first_index f cfs1 = first_index f (synthesized ids now1 cfs0)" for f
    using track_ids [OF assms] by (rule first_index_ids)
  then show ?thesis
    by (simp add: synthesized_complete first_index_synthesized)
qed

lemma write_value_same: "field_value f cfs = Some v \<Longrightarrow> write_value f v cfs = cfs"
proof -
  assume a: "field_value f cfs = Some v"
  then obtain i where i: "first_index f cfs = Some i" and v: "FIELD_VALUE (cfs ! i) = Some v"
    by (auto simp: field_value_def split: option.splits)
  have "(cfs ! i)\<lparr>FIELD_VALUE := Some v\<rparr> = cfs ! i"
    using v by simp
  then show ?thesis
    using i by (simp add: write_value_def set_value_def)
qed

lemma strptime_Inr: "strptime v = Inr t \<Longrightarrow> \<exists>d. v = PDay d"
  by (cases v) simp_all

lemma track_again_after_reset:
  assumes "synthesized ids now3 cfs = cfs"
    and "field_value (last_known_stage_id ids) cfs = Some (PInt stage_order)"
    and "field_value (last_time_stage_changed_id ids) cfs = Some (strftime now2)"
    and "date_of now4 = date_of now2"
    and "stage_order \<noteq> 0 \<Longrightarrow> field_value (days_in_current_stage_id ids) cfs = Some (PInt 0)"
  shows "track ids stage_order now3 now4 cfs = Inr cfs"
proof (cases "stage_order = 0")
  case True
  have "\<not> is_recorded (field_value (last_known_stage_id ids) (synthesized ids now3 cfs))"
    using assms(1,2) True by (simp add: is_recorded_def)
  then have "track ids stage_order now3 now4 cfs = Inr (first_time ids stage_order now4 cfs)"
    using track_first_time [of ids now3 cfs stage_order now4] assms(1) by simp
  moreover have "write_value (last_known_stage_id ids) (PInt stage_order) cfs = cfs"
    using assms(2) by (rule write_value_same)
  moreover have "write_value (last_time_stage_changed_id ids) (strftime now4) cfs = cfs"
    using assms(3,4) by (simp add: write_value_same strftime_def)
  ultimately show ?thesis by (simp add: first_time_def)
next
  case False
  have "track ids stage_order now3 now4 cfs =
      Inr (write_value (days_in_current_stage_id ids) (PInt (date_of now4 - date_of now2)) cfs)"
    using track_equal [of ids now3 cfs stage_order "date_of now2" now4] assms(1-3) False
    by (simp add: strftime_def)
  moreover have "write_value (days_in_current_stage_id ids) (PInt 0) cfs = cfs"
    using assms(5) [OF False] by (rule write_value_same)
  ultimately show ?thesis using assms(4) by simp
qed

text \<open>
  C8 (as amended). The three field ids being pairwise distinct and the clock staying on
  one day: when the tracker has run on an opportunity, a second run with the same stage
  order returns the list of the first run unchanged, provided the first run found a
  recorded value of \<open>last_known_stage\<close>, or the stage order is 0, or
  \<open>days_in_current_stage\<close> read 0 (stored, or missing). In the case left out, the first
  run keeps a stale \<open>days_in_current_stage\<close> that the second run resets.
\<close>

theorem second_run_same_day_changes_nothing:
  assumes "distinct_ids ids"
    and "track ids stage_order now1 now2 cfs0 = Inr cfs1"
    and "date_of now4 = date_of now2"
    and "is_recorded (field_value (last_known_stage_id ids) cfs0) \<or> stage_order = 0 \<or>
         read_default (days_in_current_stage_id ids) (Some (PInt 0)) cfs0 = Some (PInt 0)"
  shows "track ids stage_order now3 now4 cfs1 = Inr cfs1"
proof -
  let ?lks = "last_known_stage_id ids"
  let ?lts = "last_time_stage_changed_id ids"
  let ?dcs = "days_in_current_stage_id ids"
  let ?cfs3 = "synthesized ids now1 cfs0"
  have d: "?lks \<noteq> ?lts" "?lks \<noteq> ?dcs" "?lts \<noteq> ?dcs" "?lts \<noteq> ?lks" "?dcs \<noteq> ?lks" "?dcs \<noteq> ?lts"
    using assms(1) by (auto simp: distinct_ids_def)
  have c: "synthesized ids now3 cfs1 = cfs1"
    using assms(2) by (rule track_complete)
  have r0: "field_value ?lks ?cfs3 = field_value ?lks cfs0"
    and dc0: "field_value ?dcs ?cfs3 = read_default ?dcs (Some (PInt 0)) cfs0"
    using assms(1) by (simp_all add: field_value_synthesized)
  show ?thesis
  proof (cases "is_recorded (field_value ?lks ?cfs3)")
    case False
    then have 1: "cfs1 = first_time ids stage_order now2 ?cfs3"
      using track_first_time [of ids now1 cfs0 stage_order now2] assms(2) by simp
    have "stage_order \<noteq> 0 \<Longrightarrow> field_value ?dcs cfs1 = Some (PInt 0)"
      using False assms(4) d
      by (simp add: 1 first_time_def field_value_write_value r0 dc0)
    moreover have "field_value ?lks cfs1 = Some (PInt stage_order)"
      using d by (simp add: 1 first_time_def field_value_write_value first_index_synthesized)
    moreover have "field_value ?lts cfs1 = Some (strftime now2)"
      by (simp add: 1 first_time_def field_value_write_value first_index_synthesized)
    ultimately show ?thesis
      using c assms(3) by (intro track_again_after_reset [where ?now2.0 = now2]) simp_all
  next
    case True
    then obtain v where v: "field_value ?lks ?cfs3 = Some v" and tv: "truthy v"
      by (auto simp: is_recorded_def split: option.splits)
    show ?thesis
    proof (cases "py_eq stage_order v")
      case True
      then have ve: "v = PInt stage_order" by (cases v) simp_all
      have nz: "stage_order \<noteq> 0" using tv ve by simp
      have "\<exists>d'. field_value ?lts ?cfs3 = Some (PDay d')"
        using assms(2) v tv True
        by (auto simp: track_char Let_def split: option.splits sum.splits dest: strptime_Inr)
      then obtain d' where lt: "field_value ?lts ?cfs3 = Some (PDay d')" ..
      have 1: "cfs1 = write_value ?dcs (PInt (date_of now2 - d')) ?cfs3"
        using track_equal [of ids now1 cfs0 stage_order d' now2] v ve nz lt assms(2) by simp
      have a: "field_value ?lks cfs1 = Some (PInt stage_order)"
        using d v ve by (simp add: 1 field_value_write_value)
      have b: "field_value ?lts cfs1 = Some (PDay d')"
        using d lt by (simp add: 1 field_value_write_value)
      have e: "field_value ?dcs cfs1 = Some (PInt (date_of now2 - d'))"
        by (simp add: 1 field_value_write_value first_index_synthesized)
      have "track ids stage_order now3 now4 cfs1 =
          Inr (write_value ?dcs (PInt (date_of now4 - d')) cfs1)"
        using track_equal [of ids now3 cfs1 stage_order d' now4] a b nz c by simp
      then show ?thesis
        using e assms(3) by (simp add: write_value_same)
    next
      case False
      note ne = False
      show ?thesis
      proof (cases "py_gt stage_order v")
        case True
        have 1: "cfs1 = write_value ?lks (PInt stage_order)
            (write_value ?lts (strftime now2) (write_value ?dcs (PInt 0) ?cfs3))"
          using assms(2) v tv ne True by (simp add: track_char)
        have "field_value ?dcs cfs1 = Some (PInt 0)"
          using d by (simp add: 1 field_value_write_value first_index_synthesized)
        moreover have "field_value ?lks cfs1 = Some (PInt stage_order)"
          by (simp add: 1 field_value_write_value first_index_synthesized)
        moreover have "field_value ?lts cfs1 = Some (strftime now2)"
          using d by (simp add: 1 field_value_write_value first_index_synthesized)
        ultimately show ?thesis
          using c assms(3) by (intro track_again_after_reset [where ?now2.0 = now2]) simp_all
      next
        case False
        have 1: "cfs1 = ?cfs3"
          using assms(2) v tv ne False by (simp add: track_char)
        have "field_value ?lks cfs1 = Some v"
          using v by (simp add: 1)
        then show ?thesis
          using tv ne False c by (simp add: track_char)
      qed
    qed
  qed
qed

theorem second_run_same_day_changes_nothing_witness:
  "distinct_ids test_ids \<and>
   track test_ids 1 (noon 10) (noon 10) [] = Inr (tracked (PInt 1) (PDay 10) (PInt 0)) \<and>
   date_of (noon 10 + 1) = date_of (noon 10) \<and>
   read_default (days_in_current_stage_id test_ids) (Some (PInt 0)) [] = Some (PInt 0) \<and>
   track test_ids 1 (noon 10 + 1) (noon 10 + 1) (tracked (PInt 1) (PDay 10) (PInt 0)) =
     Inr (tracked (PInt 1) (PDay 10) (PInt 0))"
proof -
  have h1: "distinct_ids test_ids"
    by (simp add: distinct_ids_def test_ids_def)
  have h2: "track test_ids 1 (noon 10) (noon 10) [] = Inr (tracked (PInt 1) (PDay 10) (PInt 0))"
    by (simp add: track_def get_custom_field_def set_value_def dict_get_def test_ids_def
        tracked_def cf_def strftime_def date_of_def noon_def midnight_def usec_per_day_def)
  have h3: "date_of (noon 10 + 1) = date_of (noon 10)"
    by (simp add: date_of_def noon_def midnight_def usec_per_day_def)
  have h4: "read_default (days_in_current_stage_id test_ids) (Some (PInt 0)) [] = Some (PInt 0)"
    by (simp add: read_default_def)
  have h5: "is_recorded (field_value (last_known_stage_id test_ids) []) \<or> (1::int) = 0 \<or>
      read_default (days_in_current_stage_id test_ids) (Some (PInt 0)) [] = Some (PInt 0)"
    using h4 by simp
  show ?thesis
    using second_run_same_day_changes_nothing [OF h1 h2 h3 h5, of "noon 10 + 1"] h1 h2 h3 h4
    by simp
qed

text \<open>
  C8 as stated fails for an opportunity that has 7 in \<open>days_in_current_stage\<close> and
  no \<open>last_known_stage\<close>: the first run keeps the 7, the second run on the same day, now
  in the unchanged-stage branch, sets it to 0.
\<close>

theorem second_run_same_day_changes_nothing_counterexample:
  "track test_ids 1 (noon 10) (noon 10) [cf ''days_in_cur_stage'' (PInt 7)] =
     Inr [cf ''days_in_cur_stage'' (PInt 7), cf ''last_stage'' (PInt 1), cf ''last_time'' (PDay 10)] \<and>
   track test_ids 1 (noon 10) (noon 10)
       [cf ''days_in_cur_stage'' (PInt 7), cf ''last_stage'' (PInt 1), cf ''last_time'' (PDay 10)] =
     Inr [cf ''days_in_cur_stage'' (PInt 0), cf ''last_stage'' (PInt 1), cf ''last_time'' (PDay 10)] \<and>
   cf ''days_in_cur_stage'' (PInt 7) \<noteq> cf ''days_in_cur_stage'' (PInt 0)"
  by (simp add: track_def get_custom_field_def set_value_def dict_get_def subscript_def
      timedelta_days_def test_ids_def cf_def strftime_def date_of_def noon_def midnight_def
      usec_per_day_def)

section \<open>The loop and the run\<close>

lemma process_opp_unknown_stage:
  "OPP_STAGE_ID opp = Some sid \<Longrightarrow> sid \<noteq> 0 \<Longrightarrow> stages sid = None \<Longrightarrow>
   process_opp ids stages nows opp = Return"
  by (simp add: process_opp_def)

lemma process_loop_stops:
  assumes "process_opp ids stages (clock (i + length before)) opp = Return"
  shows "process_loop ids stages put clock i (before @ opp # rest) =
         process_loop ids stages put clock i (before @ [opp])"
  using assms
proof (induction before arbitrary: i)
  case Nil
  then show ?case by simp
next
  case (Cons x before)
  from Cons.prems have "process_opp ids stages (clock (Suc i + length before)) opp = Return"
    by simp
  then have "process_loop ids stages put clock (Suc i) (before @ opp # rest) =
      process_loop ids stages put clock (Suc i) (before @ [opp])"
    by (rule Cons.IH)
  then show ?case by (simp split: step.splits)
qed

text \<open>
  C2 (as amended). When an opportunity has a stage id that is neither null nor 0 and the
  catalog has no stage of that id, the body of the loop returns at line 177, before the
  tracker is called: from that opportunity on, the run logs one error and returns, and
  nothing is sent for it or for the opportunities after it, which have no influence on
  the run at all.
\<close>

theorem unknown_stage_ends_run:
  assumes "OPP_STAGE_ID opp = Some sid" and "sid \<noteq> 0" and "stages sid = None"
  shows "process_opp ids stages nows opp = Return \<and>
         process_loop ids stages put clock i (opp # rest) = (Returned, [LOG_error]) \<and>
         process_loop ids stages put clock i (before @ opp # rest) =
           process_loop ids stages put clock i (before @ [opp])"
proof -
  have r: "process_opp ids stages t opp = Return" for t
    using assms by (rule process_opp_unknown_stage)
  have "process_loop ids stages put clock i (opp # rest) = (Returned, [LOG_error])"
    by (simp add: r)
  moreover have "process_loop ids stages put clock i (before @ opp # rest) =
      process_loop ids stages put clock i (before @ [opp])"
    using r by (rule process_loop_stops)
  ultimately show ?thesis
    using r by blast
qed

theorem unknown_stage_ends_run_witness:
  "OPP_STAGE_ID (new_opp 1 7) = Some 7 \<and> (7::int) \<noteq> 0 \<and> stage_catalog test_stages 7 = None \<and>
   process_loop test_ids (stage_catalog test_stages) ok_put noon_clock 0
     [new_opp 1 7, new_opp 2 1] = (Returned, [LOG_error])"
proof -
  have h1: "OPP_STAGE_ID (new_opp 1 7) = Some 7"
    by (simp add: new_opp_def)
  have h2: "(7::int) \<noteq> 0" by simp
  have h3: "stage_catalog test_stages 7 = None"
    by (simp add: stage_catalog_def test_stages_def)
  show ?thesis
    using unknown_stage_ends_run
      [of "new_opp 1 7" 7 "stage_catalog test_stages" test_ids "noon_clock 0" ok_put noon_clock 0
        "[new_opp 2 1]" "[]", OF h1 h2 h3] h1 h3
    by simp
qed

text \<open>
  C2 as stated fails for the stage id 0, which the catalog of the tests does not
  hold: line 173 skips the opportunity and the run goes on to the next one, which is
  processed and sent.
\<close>

theorem unknown_stage_ends_run_counterexample:
  "OPP_STAGE_ID stage_zero_opp = Some 0 \<and> stage_catalog test_stages 0 = None \<and>
   process_loop test_ids (stage_catalog test_stages) ok_put noon_clock 0
     [stage_zero_opp, new_opp 2 1] =
     (Returned, [PUT ((new_opp 2 1)\<lparr>CUSTOMFIELDS := tracked (PInt 1) (PDay 10) (PInt 0)\<rparr>)])"
  by (simp add: stage_zero_opp_def new_opp_def stage_catalog_def test_stages_def process_opp_def
      ok_put_def noon_clock_def track_def get_custom_field_def set_value_def dict_get_def
      test_ids_def tracked_def cf_def strftime_def date_of_def noon_def midnight_def
      usec_per_day_def)

text \<open>
  C1 (as amended). When the custom-field definitions are received and one of the three
  names matches no definition or more than one, the run sends no further request: it logs
  one error and returns, so nothing is raised and the process ends with status 0. No
  opportunity is fetched or sent. The unknown-stage path ends the same way, by a return
  after the error log.
\<close>

theorem unresolved_fields_end_run:
  assumes "insightly_get (custom_fields_response srv) = Inr field_defs"
    and "length (get_fields_by_name field_defs ''last known stage'') \<noteq> 1 \<or>
         length (get_fields_by_name field_defs ''last time stage changed'') \<noteq> 1 \<or>
         length (get_fields_by_name field_defs ''days in current stage'') \<noteq> 1"
  shows "process_opportunities_stages fuel srv clock = (Returned, [GET_CustomFields, LOG_error]) \<and>
         exit_status (fst (process_opportunities_stages fuel srv clock)) = Some 0 \<and>
         (OPP_STAGE_ID opp = Some sid \<and> sid \<noteq> 0 \<and> stages sid = None \<longrightarrow>
          exit_status (fst (process_loop ids stages put clock i (opp # rest))) = Some 0)"
proof -
  have "process_opportunities_stages fuel srv clock = (Returned, [GET_CustomFields, LOG_error])"
    using assms
    by (auto simp: process_opportunities_stages_def split: list.splits)
  moreover have "process_loop ids stages put clock i (opp # rest) = (Returned, [LOG_error])"
    if "OPP_STAGE_ID opp = Some sid" "sid \<noteq> 0" "stages sid = None"
    using that by (simp add: process_opp_unknown_stage)
  ultimately show ?thesis by simp
qed

lemma test_field_defs_resolved:
  "get_fields_by_name test_field_defs ''last known stage'' = [test_field_defs ! 0]"
  "get_fields_by_name test_field_defs ''last time stage changed'' = [test_field_defs ! 1]"
  "get_fields_by_name test_field_defs ''days in current stage'' = [test_field_defs ! 2]"
  by (simp_all add: get_fields_by_name_def test_field_defs_def lower_def lower_char_def)

theorem unresolved_fields_end_run_witness:
  "insightly_get (custom_fields_response (test_server (take 2 test_field_defs) [new_opp 1 1])) =
     Inr (take 2 test_field_defs) \<and>
   length (get_fields_by_name (take 2 test_field_defs) ''days in current stage'') \<noteq> 1 \<and>
   OPP_STAGE_ID (new_opp 1 7) = Some 7 \<and> (7::int) \<noteq> 0 \<and> stage_catalog test_stages 7 = None \<and>
   process_opportunities_stages 5 (test_server (take 2 test_field_defs) [new_opp 1 1]) noon_clock =
     (Returned, [GET_CustomFields, LOG_error]) \<and>
   exit_status (fst (process_loop test_ids (stage_catalog test_stages) ok_put noon_clock 0
     [new_opp 1 7])) = Some 0"
proof -
  have h1: "insightly_get (custom_fields_response (test_server (take 2 test_field_defs)
      [new_opp 1 1])) = Inr (take 2 test_field_defs)"
    by (simp add: insightly_get_def test_server_def)
  have h2: "length (get_fields_by_name (take 2 test_field_defs) ''days in current stage'') \<noteq> 1"
    by (simp add: get_fields_by_name_def test_field_defs_def lower_def lower_char_def)
  then have h3: "length (get_fields_by_name (take 2 test_field_defs) ''last known stage'') \<noteq> 1 \<or>
      length (get_fields_by_name (take 2 test_field_defs) ''last time stage changed'') \<noteq> 1 \<or>
      length (get_fields_by_name (take 2 test_field_defs) ''days in current stage'') \<noteq> 1"
    by simp
  have h4: "OPP_STAGE_ID (new_opp 1 7) = Some 7"
    by (simp add: new_opp_def)
  have h5: "stage_catalog test_stages 7 = None"
    by (simp add: stage_catalog_def test_stages_def)
  show ?thesis
    using unresolved_fields_end_run [OF h1 h3, of 5 noon_clock "new_opp 1 7" 7
        "stage_catalog test_stages" test_ids ok_put 0 "[]"] h1 h2 h4 h5
    by simp
qed

text \<open>
  C1 as stated fails on a server without any custom-field definition: the run
  returns, and the process ends with status 0, where the claim asks for a non-zero status
  or an exception.
\<close>

theorem unresolved_fields_end_run_counterexample:
  "get_fields_by_name [] ''last known stage'' = [] \<and>
   process_opportunities_stages 5 (test_server [] [new_opp 1 1]) noon_clock =
     (Returned, [GET_CustomFields, LOG_error]) \<and>
   exit_status (fst (process_opportunities_stages 5 (test_server [] [new_opp 1 1]) noon_clock)) =
     Some 0"
  by (simp add: process_opportunities_stages_def insightly_get_def test_server_def
      get_fields_by_name_def)

section \<open>The paginated fetch\<close>

lemma paged_server_sel [simp]:
  "status_code (paged_server xs page skip) = 200"
  "content (paged_server xs page skip) = take page (drop skip xs)"
  "x_total_count (paged_server xs page skip) = length xs"
  by (simp_all add: paged_server_def)

lemma get_all_two_pages:
  assumes "0 < page" and "length xs \<le> 2 * page"
  shows "fst (insightly_get_all (Suc (Suc fuel)) (paged_server xs page)) = Some (Inr xs)"
proof (cases "length xs \<le> page")
  case True
  then show ?thesis
    by (simp add: insightly_get_all_def)
next
  case False
  have "take page (drop page xs) = drop page xs"
    using assms(2) by simp
  then have "take page xs @ take page (drop page xs) = xs"
    by simp
  then show ?thesis
    using False by (simp add: insightly_get_all_def split: prod.splits)
qed

lemma get_all_loop_stuck:
  assumes "length results + (length xs - skip) < length xs"
  shows "fst (insightly_get_all_loop fuel (paged_server xs page) results skip) = None"
  using assms
proof (induction fuel arbitrary: results skip)
  case 0
  then show ?case by simp
next
  case (Suc fuel)
  let ?got = "take page (drop skip xs)"
  let ?results = "results @ ?got"
  have g: "length ?got \<le> length xs - skip"
    by simp
  have short: "length ?results < length xs"
    using Suc.prems g by simp
  have "length ?results + (length xs - (skip + length ?results)) < length xs"
    using Suc.prems g short by arith
  then have "fst (insightly_get_all_loop fuel (paged_server xs page) ?results
      (skip + length ?results)) = None"
    by (rule Suc.IH)
  then show ?case
    using short by (auto split: prod.splits)
qed

lemma get_all_never_returns:
  assumes "0 < page" and "2 * page < length xs"
  shows "fst (insightly_get_all fuel (paged_server xs page)) = None"
proof (cases fuel)
  case 0
  then show ?thesis by (simp add: insightly_get_all_def)
next
  case (Suc f1)
  note f1 = Suc
  show ?thesis
  proof (cases f1)
    case 0
    then show ?thesis
      using f1 assms by (simp add: insightly_get_all_def)
  next
    case (Suc f2)
    let ?r2 = "take page xs @ take page (drop page xs)"
    have l2: "length ?r2 = 2 * page"
      using assms by simp
    have "length ?r2 + (length xs - (page + length ?r2)) < length xs"
      using assms l2 by arith
    then have "fst (insightly_get_all_loop f2 (paged_server xs page) ?r2 (page + length ?r2)) = None"
      by (rule get_all_loop_stuck)
    moreover have "insightly_get_all fuel (paged_server xs page) =
        (case insightly_get_all_loop f2 (paged_server xs page) ?r2 (page + length ?r2) of
           (r, skips) \<Rightarrow> (r, 0 # page # skips))"
      using f1 Suc assms
      by (simp add: insightly_get_all_def split: prod.splits)
    ultimately show ?thesis
      by (simp split: prod.splits)
  qed
qed

text \<open>
  C3. On a server that holds five open opportunities and serves them two at a time, the
  fetch never returns, whatever the number of requests allowed: line 39 adds the length
  of all the results so far to \<open>skip\<close>, which counts the first page twice, so the third
  request asks for offset 6 instead of 4 and the count of results stays below the total
  for ever. The run hangs before any opportunity is processed. The same happens for every
  result set of more than two pages.
\<close>

theorem fetch_of_three_pages_never_returns:
  "fst (insightly_get_all fuel (paged_server five_opps 2)) = None \<and>
   snd (insightly_get_all 3 (paged_server five_opps 2)) = [0, 2, 6] \<and>
   fst (process_opportunities_stages fuel (paging_test_server 2 five_opps) clock) = Hangs"
proof -
  have n: "fst (insightly_get_all fuel (paged_server five_opps 2)) = None"
    by (rule get_all_never_returns) (simp_all add: five_opps_def)
  have "snd (insightly_get_all 3 (paged_server five_opps 2)) = [0, 2, 6]"
    by (simp add: insightly_get_all_def five_opps_def numeral_3_eq_3)
  moreover have "fst (process_opportunities_stages fuel (paging_test_server 2 five_opps) clock) =
      Hangs"
    using n
    by (auto simp: process_opportunities_stages_def paging_test_server_def test_server_def
        insightly_get_def test_field_defs_resolved split: prod.splits)
  ultimately show ?thesis
    using n by simp
qed

section \<open>The scenarios of the repository's tests\<close>

text \<open>
  The three cases of \<^verbatim>\<open>test.py\<close>, run on day 10 against a server that serves the
  opportunities in one page: the requests sent and, last, the opportunity that is PUT.
\<close>

lemma test_run:
  "process_opportunities_stages (Suc fuel) (test_server test_field_defs [opp]) clock =
     (case process_loop test_ids (stage_catalog test_stages) ok_put clock 0 [opp] of
        (r, evs) \<Rightarrow> (r, [GET_CustomFields, GET_Opportunities 0, GET_PipelineStages] @ evs))"
proof -
  have "insightly_get_all (Suc fuel) (paged_server [opp] 100) = (Some (Inr [opp]), [0])"
    by (simp add: insightly_get_all_def)
  moreover have "DEF_FIELD_ID (test_field_defs ! 0) = ''last_stage''"
    and "DEF_FIELD_ID (test_field_defs ! 1) = ''last_time''"
    and "DEF_FIELD_ID (test_field_defs ! 2) = ''days_in_cur_stage''"
    by (simp_all add: test_field_defs_def)
  ultimately show ?thesis
    by (simp add: process_opportunities_stages_def test_server_def insightly_get_def
        test_field_defs_resolved test_ids_def split: prod.splits)
qed

lemma test_new_opportunity:
  "process_opportunities_stages (Suc fuel) (test_server test_field_defs [new_opp 1 1]) noon_clock =
     (Returned, [GET_CustomFields, GET_Opportunities 0, GET_PipelineStages,
        PUT (tracked_opp 1 (PInt 1) (PDay 10) (PInt 0))])"
  by (simp add: test_run new_opp_def tracked_opp_def stage_catalog_def test_stages_def
      process_opp_def ok_put_def noon_clock_def track_def get_custom_field_def set_value_def
      dict_get_def test_ids_def tracked_def cf_def strftime_def date_of_def noon_def
      midnight_def usec_per_day_def)

lemma test_opportunity_stage_update:
  "process_opportunities_stages (Suc fuel)
       (test_server test_field_defs [tracked_opp 2 (PInt 1) (PDay 3) (PInt 0)]) noon_clock =
     (Returned, [GET_CustomFields, GET_Opportunities 0, GET_PipelineStages,
        PUT (tracked_opp 2 (PInt 2) (PDay 10) (PInt 0))])"
  by (simp add: test_run tracked_opp_def stage_catalog_def test_stages_def
      process_opp_def ok_put_def noon_clock_def track_def get_custom_field_def set_value_def
      dict_get_def subscript_def test_ids_def tracked_def cf_def strftime_def date_of_def
      noon_def midnight_def usec_per_day_def)

lemma test_opportunity_stage_linger:
  "process_opportunities_stages (Suc fuel)
       (test_server test_field_defs [tracked_opp 1 (PInt 1) (PDay 5) (PInt 0)]) noon_clock =
     (Returned, [GET_CustomFields, GET_Opportunities 0, GET_PipelineStages,
        PUT (tracked_opp 1 (PInt 1) (PDay 5) (PInt 5))])"
  by (simp add: test_run tracked_opp_def stage_catalog_def test_stages_def
      process_opp_def ok_put_def noon_clock_def track_def get_custom_field_def set_value_def
      dict_get_def subscript_def timedelta_days_def test_ids_def tracked_def cf_def
      strftime_def date_of_def noon_def midnight_def usec_per_day_def)

end
